theory Spec2Isabelle
  imports Main "HOL-Library.Word"
begin

section \<open>Batch primitives (libvast/src/execution_node.cpp)\<close>

text \<open>
  The pipeline transports two kinds of elements. A \<open>table_slice\<close> is a batch of rows; the
  engine only ever asks it for its row count and for sub-ranges of its rows, so a batch is
  modelled as the list of its rows. A \<open>chunk_ptr\<close> is a reference-counted pointer to a
  contiguous byte buffer; the pointer may be null, which is \<open>None\<close>.
\<close>

type_synonym 'r table_slice = "'r list"

type_synonym byte = "8 word"

type_synonym chunk_ptr = "byte list option"

text \<open>\<open>table_slice::rows()\<close>.\<close>

definition rows :: "'r table_slice \<Rightarrow> nat" where
  "rows sl = length sl"

text \<open>\<open>auto size(const table_slice& slice) -> uint64_t\<close>.\<close>

definition size_table_slice :: "'r table_slice \<Rightarrow> nat" where
  "size_table_slice sl = rows sl"

text \<open>\<open>auto size(const chunk_ptr& chunk) -> uint64_t\<close>: a null pointer has size 0.\<close>

definition size_chunk_ptr :: "chunk_ptr \<Rightarrow> nat" where
  "size_chunk_ptr chunk = (case chunk of None \<Rightarrow> 0 | Some bs \<Rightarrow> length bs)"

text \<open>The bytes a chunk pointer gives access to (none for the null pointer).\<close>

definition bytes_of :: "chunk_ptr \<Rightarrow> byte list" where
  "bytes_of chunk = (case chunk of None \<Rightarrow> [] | Some bs \<Rightarrow> bs)"

text \<open>
  Modelled from the spec: \<open>chunk::slice(start, length)\<close> is declared in \<open>vast/chunk.hpp\<close>,
  which is not among the sources. The spec calls a chunk "a refcounted contiguous byte buffer
  supporting zero-copy slicing"; the slice holds the \<open>length\<close> bytes from position
  \<open>start\<close> on.
\<close>

definition chunk_slice :: "byte list \<Rightarrow> nat \<Rightarrow> nat \<Rightarrow> byte list" where
  "chunk_slice bs start len = take len (drop start bs)"

text \<open>
  \<open>split(const chunk_ptr& chunk, size_t partition_point)\<close>. The third branch dereferences
  the pointer; it is reached only when \<open>0 < partition_point < size(chunk)\<close>, so the pointer
  is not null there and the \<open>None\<close> case below is never taken.
\<close>

definition split_chunk_ptr :: "chunk_ptr \<Rightarrow> nat \<Rightarrow> chunk_ptr \<times> chunk_ptr" where
  "split_chunk_ptr chunk partition_point =
     (if partition_point = 0 then (None, chunk)
      else if partition_point \<ge> size_chunk_ptr chunk then (chunk, None)
      else (case chunk of
              None \<Rightarrow> (None, None)
            | Some bs \<Rightarrow>
                (Some (chunk_slice bs 0 partition_point),
                 Some (chunk_slice bs partition_point (size_chunk_ptr chunk - partition_point)))))"

text \<open>
  The loop of \<open>split(std::vector<chunk_ptr> chunks, uint64_t partition_point)\<close>. The first
  argument is the range \<open>[chunks.begin(), it)\<close> already passed, the second the range
  \<open>[it, chunks.end())\<close>. The element size and the single-element split are parameters, so
  that the same loop serves both element types.
\<close>

fun split_loop ::
  "('a \<Rightarrow> nat) \<Rightarrow> ('a \<Rightarrow> nat \<Rightarrow> 'a \<times> 'a) \<Rightarrow> 'a list \<Rightarrow> 'a list \<Rightarrow> nat \<Rightarrow> 'a list \<times> 'a list" where
  "split_loop sz spl passed [] partition_point = (passed, [])"
| "split_loop sz spl passed (x # rest) partition_point =
     (if partition_point = sz x then (passed @ [x], rest)
      else if partition_point < sz x then
        (let (split_lhs, split_rhs) = spl x partition_point
         in (passed @ [split_lhs], split_rhs # rest))
      else split_loop sz spl (passed @ [x]) rest (partition_point - sz x))"

definition split_chunk_ptrs :: "chunk_ptr list \<Rightarrow> nat \<Rightarrow> chunk_ptr list \<times> chunk_ptr list" where
  "split_chunk_ptrs chunks partition_point =
     split_loop size_chunk_ptr split_chunk_ptr [] chunks partition_point"

definition total_size :: "('a \<Rightarrow> nat) \<Rightarrow> 'a list \<Rightarrow> nat" where
  "total_size sz xs = sum_list (map sz xs)"

text \<open>
  The result of the vector split is cut at an element boundary \<open>i\<close>, or inside the single
  element \<open>i\<close>: all elements before it go left and all elements after it go right, unchanged.
\<close>

definition cut_at_boundary :: "'a list \<Rightarrow> 'a list \<times> 'a list \<Rightarrow> bool" where
  "cut_at_boundary xs r = (\<exists>i. i \<le> length xs \<and> fst r = take i xs \<and> snd r = drop i xs)"

definition cut_inside ::
  "('a \<Rightarrow> nat) \<Rightarrow> ('a \<Rightarrow> nat \<Rightarrow> 'a \<times> 'a) \<Rightarrow> 'a list \<Rightarrow> 'a list \<times> 'a list \<Rightarrow> bool" where
  "cut_inside sz spl xs r =
     (\<exists>i m. i < length xs \<and> m < sz (xs ! i)
        \<and> fst r = take i xs @ [fst (spl (xs ! i) m)]
        \<and> snd r = snd (spl (xs ! i) m) # drop (Suc i) xs)"

section \<open>The slice operator (libtenzir/builtins/operators/slice.cpp)\<close>

text \<open>
  A \<open>generator<table_slice>\<close> is a lazy single-pass sequence; the operator reads its input
  from front to back and its output is the sequence of batches it yields, so both are lists
  of batches. An empty batch in the output is a yield of \<open>{}\<close>. The bounds and the running
  offset are \<open>int64_t\<close> in the source and \<open>int\<close> here; with fewer than \<open>2 ^ 63\<close> rows in
  the input no intermediate value leaves the \<open>int64_t\<close> range. A failed \<open>TENZIR_ASSERT\<close>
  is the result \<open>None\<close>.
\<close>

text \<open>The implicit conversion of an \<open>int64_t\<close> argument to an unsigned 64-bit parameter.\<close>

definition to_size_t :: "int \<Rightarrow> nat" where
  "to_size_t x = nat (x mod 2 ^ 64)"

text \<open>
  Modelled from the spec: \<open>subslice(slice, begin, end)\<close> is defined in
  \<open>table_slice.cpp\<close>, which is not among the sources. The spec says that a batch "reports a
  non-negative row count and supports zero-copy slicing \<open>[begin, end)\<close>": the result holds
  the rows of the batch at the positions from \<open>begin\<close> up to, not including, \<open>end\<close>; there
  are none when \<open>end \<le> begin\<close>.
\<close>

definition subslice :: "'r table_slice \<Rightarrow> nat \<Rightarrow> nat \<Rightarrow> 'r table_slice" where
  "subslice sl b e = take (e - b) (drop b sl)"

text \<open>The loop of \<open>positive_begin_positive_end\<close>; \<open>offset\<close> is the loop's variable.\<close>

fun pbpe_loop :: "int \<Rightarrow> int \<Rightarrow> int \<Rightarrow> 'r table_slice list \<Rightarrow> 'r table_slice list" where
  "pbpe_loop b e offset [] = []"
| "pbpe_loop b e offset (sl # input) =
     (if rows sl = 0 then [] # pbpe_loop b e offset input
      else
        (let clamped_begin = max 0 (b - offset);
             clamped_end = min (int (rows sl)) (e - offset);
             result = subslice sl (to_size_t clamped_begin) (to_size_t clamped_end);
             offset' = offset + int (rows sl)
         in result # (if offset' \<ge> e then [] else pbpe_loop b e offset' input)))"

definition positive_begin_positive_end ::
  "'r table_slice list \<Rightarrow> int \<Rightarrow> int \<Rightarrow> 'r table_slice list option" where
  "positive_begin_positive_end input b e =
     (if \<not> b \<ge> 0 then None
      else if \<not> e \<ge> 0 then None
      else if e \<le> b then Some []
      else Some (pbpe_loop b e 0 input))"

text \<open>
  \<open>positive_begin_negative_end\<close>. The first loop consumes the whole input; it returns the
  empty batches it yielded, the buffer and the final offset. The second loop emits from the
  buffer.
\<close>

fun pbne_collect ::
  "int \<Rightarrow> int \<Rightarrow> 'r table_slice list \<Rightarrow> 'r table_slice list \<Rightarrow> 'r table_slice list
   \<Rightarrow> 'r table_slice list \<times> 'r table_slice list \<times> int" where
  "pbne_collect b offset buffer yielded [] = (yielded, buffer, offset)"
| "pbne_collect b offset buffer yielded (sl # input) =
     (if rows sl = 0 then pbne_collect b offset buffer (yielded @ [[]]) input
      else
        (let clamped_begin = max 0 (b - offset);
             result = subslice sl (to_size_t clamped_begin) (rows sl);
             buffer' = (if rows result > 0 then buffer @ [result] else buffer)
         in pbne_collect b (offset + int (rows sl)) buffer' yielded input))"

fun pbne_emit :: "int \<Rightarrow> int \<Rightarrow> 'r table_slice list \<Rightarrow> 'r table_slice list" where
  "pbne_emit e offset [] = []"
| "pbne_emit e offset (sl # buffer) =
     (let clamped_end = min (int (rows sl)) (e - offset);
          result = subslice sl 0 (to_size_t clamped_end)
      in if rows result = 0 then []
         else result # pbne_emit e (offset + int (rows sl)) buffer)"

definition positive_begin_negative_end ::
  "'r table_slice list \<Rightarrow> int \<Rightarrow> int \<Rightarrow> 'r table_slice list option" where
  "positive_begin_negative_end input b e =
     (if \<not> b \<ge> 0 then None
      else if \<not> e \<le> 0 then None
      else
        (let (yielded, buffer, offset) = pbne_collect b 0 [] [] input;
             e' = offset + e - b
         in if e' < 0 then Some yielded
            else Some (yielded @ pbne_emit e' 0 buffer)))"

text \<open>
  \<open>negative_begin_positive_end\<close>. The first loop stops reading the input at the first batch
  for which the test \<open>result.rows() == 0\<close> holds (\<open>break\<close>). In the source this test comes
  after \<open>buffer.push_back(std::move(result))\<close>, so it reads a moved-from batch; what a
  moved-from batch reports depends on the move constructor of \<open>table_slice\<close>, which is not
  among the sources. The flag \<open>keeps_rows\<close> says which: \<open>True\<close> when the moved-from batch
  still reports the rows of the batch that was pushed, \<open>False\<close> when it reports none.
\<close>

fun nbpe_collect ::
  "bool \<Rightarrow> int \<Rightarrow> int \<Rightarrow> 'r table_slice list \<Rightarrow> 'r table_slice list \<Rightarrow> 'r table_slice list
   \<Rightarrow> 'r table_slice list \<times> 'r table_slice list \<times> int" where
  "nbpe_collect keeps_rows e offset buffer yielded [] = (yielded, buffer, offset)"
| "nbpe_collect keeps_rows e offset buffer yielded (sl # input) =
     (if rows sl = 0 then nbpe_collect keeps_rows e offset buffer (yielded @ [[]]) input
      else
        (let clamped_end = min (int (rows sl)) (e - offset);
             offset' = offset + int (rows sl);
             result = subslice sl 0 (to_size_t clamped_end);
             buffer' = buffer @ [result];
             moved_from = (if keeps_rows then result else [])
         in if rows moved_from = 0 then (yielded, buffer', offset')
            else nbpe_collect keeps_rows e offset' buffer' yielded input))"

fun nbpe_emit :: "int \<Rightarrow> int \<Rightarrow> 'r table_slice list \<Rightarrow> 'r table_slice list" where
  "nbpe_emit b offset [] = []"
| "nbpe_emit b offset (sl # buffer) =
     (let clamped_begin = max 0 (b - offset);
          offset' = offset + int (rows sl)
      in if clamped_begin \<ge> int (rows sl) then nbpe_emit b offset' buffer
         else
           (let result = subslice sl (to_size_t clamped_begin) (rows sl)
            in if rows result > 0 then result # nbpe_emit b offset' buffer
               else nbpe_emit b offset' buffer))"

definition negative_begin_positive_end ::
  "bool \<Rightarrow> 'r table_slice list \<Rightarrow> int \<Rightarrow> int \<Rightarrow> 'r table_slice list option" where
  "negative_begin_positive_end keeps_rows input b e =
     (if \<not> b \<le> 0 then None
      else if \<not> e \<ge> 0 then None
      else
        (let (yielded, buffer, offset) = nbpe_collect keeps_rows e 0 [] [] input;
             b' = offset + b
         in if b' \<ge> offset then Some yielded
            else Some (yielded @ nbpe_emit b' 0 buffer)))"

text \<open>\<open>negative_begin_negative_end\<close>: buffer everything, then emit.\<close>

fun nbne_collect ::
  "int \<Rightarrow> 'r table_slice list \<Rightarrow> 'r table_slice list \<Rightarrow> 'r table_slice list
   \<Rightarrow> 'r table_slice list \<times> 'r table_slice list \<times> int" where
  "nbne_collect offset buffer yielded [] = (yielded, buffer, offset)"
| "nbne_collect offset buffer yielded (sl # input) =
     (if rows sl = 0 then nbne_collect offset buffer (yielded @ [[]]) input
      else nbne_collect (offset + int (rows sl)) (buffer @ [sl]) yielded input)"

fun nbne_emit :: "int \<Rightarrow> int \<Rightarrow> int \<Rightarrow> 'r table_slice list \<Rightarrow> 'r table_slice list" where
  "nbne_emit b e offset [] = []"
| "nbne_emit b e offset (sl # buffer) =
     (let clamped_begin = max 0 (b - offset);
          clamped_end = min (int (rows sl)) (e - offset);
          offset' = offset + int (rows sl)
      in if clamped_begin \<ge> int (rows sl) then nbne_emit b e offset' buffer
         else
           (let result = subslice sl (to_size_t clamped_begin) (to_size_t clamped_end)
            in if rows result = 0 then []
               else result # nbne_emit b e offset' buffer))"

definition negative_begin_negative_end ::
  "'r table_slice list \<Rightarrow> int \<Rightarrow> int \<Rightarrow> 'r table_slice list option" where
  "negative_begin_negative_end input b e =
     (if \<not> b \<le> 0 then None
      else if \<not> e \<le> 0 then None
      else if e \<le> b then Some []
      else
        (let (yielded, buffer, offset) = nbne_collect 0 [] [] input
         in Some (yielded @ nbne_emit (offset + b) (offset + e) 0 buffer)))"

text \<open>\<open>std::optional::value_or\<close>.\<close>

definition value_or :: "'a option \<Rightarrow> 'a \<Rightarrow> 'a" where
  "value_or x d = (case x of None \<Rightarrow> d | Some v \<Rightarrow> v)"

text \<open>
  \<open>slice_operator::operator()\<close> for an operator with the fields \<open>begin_\<close> and \<open>end_\<close>
  (\<open>begin_opt\<close> and \<open>end_opt\<close>); \<open>keeps_rows\<close> is the flag explained above.
\<close>

definition slice_operator ::
  "bool \<Rightarrow> int option \<Rightarrow> int option \<Rightarrow> 'r table_slice list \<Rightarrow> 'r table_slice list option" where
  "slice_operator keeps_rows begin_opt end_opt input =
     (if begin_opt = None \<and> end_opt = None then Some input
      else if begin_opt = None \<or> the begin_opt \<ge> 0 then
        (if end_opt \<noteq> None \<and> the end_opt \<ge> 0
         then positive_begin_positive_end input (value_or begin_opt 0) (the end_opt)
         else positive_begin_negative_end input (value_or begin_opt 0) (value_or end_opt 0))
      else if end_opt \<noteq> None \<and> the end_opt \<ge> 0
        then negative_begin_positive_end keeps_rows input (the begin_opt) (the end_opt)
      else negative_begin_negative_end input (the begin_opt) (value_or end_opt 0))"

text \<open>The rows of a stream at the global positions from \<open>b\<close> up to, not including, \<open>e\<close>.\<close>

definition rows_between :: "'r table_slice list \<Rightarrow> nat \<Rightarrow> nat \<Rightarrow> 'r list" where
  "rows_between input b e = take (e - b) (drop b (concat input))"


section \<open>Errors and diagnostics\<close>

text \<open>
  The error codes the modelled code uses: the members of \<open>vast::ec\<close> it names, and
  \<open>caf::sec::request_receiver_down\<close>. A \<open>caf::error\<close> that is not \<open>caf::none\<close> is a code
  with a message; a \<open>caf::error\<close> that may be \<open>caf::none\<close> is a \<open>caf_error option\<close>.
  Comparing an error with a code (\<open>error != ec::silent\<close>) compares the codes only.
\<close>

datatype ec =
    Ec_syntax_error
  | Ec_invalid_configuration
  | Ec_invalid_argument
  | Ec_logic_error
  | Ec_silent
  | Ec_unspecified
  | Sec_request_receiver_down

datatype caf_error = Error (code: ec) (message: string)

fun ec_name :: "ec \<Rightarrow> string" where
  "ec_name Ec_syntax_error = ''syntax_error''"
| "ec_name Ec_invalid_configuration = ''invalid_configuration''"
| "ec_name Ec_invalid_argument = ''invalid_argument''"
| "ec_name Ec_logic_error = ''logic_error''"
| "ec_name Ec_silent = ''silent''"
| "ec_name Ec_unspecified = ''unspecified''"
| "ec_name Sec_request_receiver_down = ''request_receiver_down''"

text \<open>\<open>fmt::to_string(error)\<close>, as the code name followed by the message.\<close>

definition to_string :: "caf_error \<Rightarrow> string" where
  "to_string err = ec_name (code err) @ '': '' @ message err"

datatype severity = Severity_error | Severity_warning

record diagnostic =
  severity :: severity
  diag_message :: string
  diag_notes :: "string list"

section \<open>The write and to operators (libvast/builtins/operators/write_to.cpp)\<close>

text \<open>
  What the construction reads of a printer plugin and of a saver plugin: the name, whether
  the printer allows joining, whether the saver requires joining, and the name of the default
  counterpart, if any.
\<close>

record printer_plugin =
  printer_name :: string
  printer_allows_joining :: bool
  make_default_saver :: "string option"

record saver_plugin =
  saver_name :: string
  saver_requires_joining :: bool
  make_default_printer :: "string option"

text \<open>
  The plugin registry behind \<open>plugins::find<printer_plugin>\<close> and
  \<open>plugins::find<saver_plugin>\<close>; it is not among the sources and is a parameter.
\<close>

record plugins =
  find_printer :: "string \<Rightarrow> printer_plugin option"
  find_saver :: "string \<Rightarrow> saver_plugin option"

datatype operator =
    Print_operator printer_plugin
  | Save_operator saver_plugin
  | Print_save_operator printer_plugin saver_plugin
  | Pipeline "operator list"

text \<open>
  The last statements of both \<open>make_operator\<close> functions (lines 217 to 238 and 321 to 341),
  which are the same text.
\<close>

definition join_or_fuse :: "printer_plugin \<Rightarrow> saver_plugin \<Rightarrow> caf_error + operator" where
  "join_or_fuse printer saver =
     (if saver_requires_joining saver \<and> \<not> printer_allows_joining printer then
        Inl (Error Ec_invalid_argument
          (''writing '' @ printer_name printer @ '' to '' @ saver_name saver @ '' is not allowed''))
      else if \<not> saver_requires_joining saver then
        Inr (Print_save_operator printer saver)
      else Inr (Pipeline [Print_operator printer, Save_operator saver]))"

text \<open>
  \<open>write_plugin::make_operator\<close>. The parser combinators are not among the sources; the
  argument \<open>parsed\<close> is what the parser \<open>p\<close> leaves in \<open>result\<close>: \<open>None\<close> when it fails,
  else the first plugin name and, if given, the name after the keyword \<open>to\<close>.
\<close>

definition write_make_operator ::
  "plugins \<Rightarrow> (string \<times> string option) option \<Rightarrow> caf_error + operator" where
  "write_make_operator reg parsed =
     (case parsed of
        None \<Rightarrow> Inl (Error Ec_syntax_error ''failed to parse write operator'')
      | Some (name, saver_argument) \<Rightarrow>
          (case find_printer reg name of
             None \<Rightarrow> Inl (Error Ec_syntax_error
                 (''failed to parse write operator: no '' @ name @ '' printer found''))
           | Some printer \<Rightarrow>
               (case saver_argument of
                  Some saver_nm \<Rightarrow>
                    (case find_saver reg saver_nm of
                       None \<Rightarrow> Inl (Error Ec_syntax_error
                         (''failed to parse write operator: no '' @ saver_nm @ '' saver found''))
                     | Some saver \<Rightarrow> join_or_fuse printer saver)
                | None \<Rightarrow>
                    (case make_default_saver printer of
                       None \<Rightarrow> Inl (Error Ec_invalid_configuration
                         (''failed to parse write operator: no available default sink for printing ''
                            @ printer_name printer @ '' output found''))
                     | Some default_saver_name \<Rightarrow>
                         (case find_saver reg default_saver_name of
                            None \<Rightarrow> Inl (Error Ec_invalid_configuration
                              (''failed to parse write operator: default sink ''
                                 @ default_saver_name @ '' for printing ''
                                 @ printer_name printer @ '' output found''))
                          | Some saver \<Rightarrow> join_or_fuse printer saver)))))"

text \<open>\<open>to_plugin::make_operator\<close>: the saver is named first, the printer after \<open>write\<close>.\<close>

definition to_make_operator ::
  "plugins \<Rightarrow> (string \<times> string option) option \<Rightarrow> caf_error + operator" where
  "to_make_operator reg parsed =
     (case parsed of
        None \<Rightarrow> Inl (Error Ec_syntax_error ''failed to parse to operator'')
      | Some (name, printer_argument) \<Rightarrow>
          (case find_saver reg name of
             None \<Rightarrow> Inl (Error Ec_syntax_error
                 (''failed to parse write operator: no '' @ name @ '' saver found''))
           | Some saver \<Rightarrow>
               (case printer_argument of
                  Some printer_nm \<Rightarrow>
                    (case find_printer reg printer_nm of
                       None \<Rightarrow> Inl (Error Ec_syntax_error
                         (''failed to parse to operator: no '' @ printer_nm @ '' printer found''))
                     | Some printer \<Rightarrow> join_or_fuse printer saver)
                | None \<Rightarrow>
                    (case make_default_printer saver of
                       None \<Rightarrow> Inl (Error Ec_invalid_configuration
                         (''failed to parse write operator: no available default printer for sink ''
                            @ saver_name saver @ '' found''))
                     | Some default_printer_name \<Rightarrow>
                         (case find_printer reg default_printer_name of
                            None \<Rightarrow> Inl (Error Ec_invalid_configuration
                              (''failed to parse write operator: default format ''
                                 @ default_printer_name @ '' for sink ''
                                 @ saver_name saver @ '' is unavailable''))
                          | Some printer \<Rightarrow> join_or_fuse printer saver)))))"

text \<open>
  The printer and the saver that \<open>write FMT [to SINK]\<close> resolves to: the printer registered
  as \<open>FMT\<close>, and the saver registered as \<open>SINK\<close> or, without \<open>to SINK\<close>, as the printer's
  default saver. \<open>None\<close> when a name is unknown or the text does not parse.
\<close>

definition write_resolves :: "plugins \<Rightarrow> (string \<times> string option) option \<Rightarrow> (printer_plugin \<times> saver_plugin) option" where
  "write_resolves reg parsed =
     (case parsed of
        None \<Rightarrow> None
      | Some (fmt, sink_opt) \<Rightarrow>
          (case find_printer reg fmt of
             None \<Rightarrow> None
           | Some p \<Rightarrow>
               (case (case sink_opt of Some sink \<Rightarrow> Some sink | None \<Rightarrow> make_default_saver p) of
                  None \<Rightarrow> None
                | Some sink \<Rightarrow> map_option (Pair p) (find_saver reg sink))))"

text \<open>The same for \<open>to SINK [write FMT]\<close>.\<close>

definition to_resolves :: "plugins \<Rightarrow> (string \<times> string option) option \<Rightarrow> (printer_plugin \<times> saver_plugin) option" where
  "to_resolves reg parsed =
     (case parsed of
        None \<Rightarrow> None
      | Some (sink, fmt_opt) \<Rightarrow>
          (case find_saver reg sink of
             None \<Rightarrow> None
           | Some s \<Rightarrow>
               (case (case fmt_opt of Some fmt \<Rightarrow> Some fmt | None \<Rightarrow> make_default_printer s) of
                  None \<Rightarrow> None
                | Some fmt \<Rightarrow> map_option (\<lambda>p. (p, s)) (find_printer reg fmt))))"

text \<open>What the specification says of a construction from the printer \<open>p\<close> and the saver \<open>s\<close>.\<close>

definition constructed_as_specified ::
  "printer_plugin \<Rightarrow> saver_plugin \<Rightarrow> caf_error + operator \<Rightarrow> bool" where
  "constructed_as_specified p s r =
     (if saver_requires_joining s \<and> \<not> printer_allows_joining p then
        (case r of Inl err \<Rightarrow> code err = Ec_invalid_argument | Inr _ \<Rightarrow> False)
      else if \<not> saver_requires_joining s then r = Inr (Print_save_operator p s)
      else r = Inr (Pipeline [Print_operator p, Save_operator s]))"

section \<open>The execution node (libvast/src/execution_node.cpp)\<close>

subsection \<open>Element types\<close>

text \<open>
  The node is a template over its input and output element types. What it uses of an element
  type is the overloaded \<open>size\<close>, the overloaded \<open>split\<close> of a vector, and the constants of
  \<open>defaults<Element>\<close>; a value of \<open>'a element_type\<close> holds them. Where the source tests
  \<open>std::is_same_v<Input, std::monostate>\<close>, the model has \<open>None\<close> in place of the element
  type.
\<close>

record 'a element_type =
  size_of :: "'a \<Rightarrow> nat"
  split_of :: "'a list \<Rightarrow> nat \<Rightarrow> 'a list \<times> 'a list"
  max_batch_size :: nat
  min_batch_size :: nat
  max_buffered :: nat

text \<open>The literals \<open>_Ki\<close> and \<open>_Mi\<close> of \<open>si_literals\<close>.\<close>

definition Ki :: "nat \<Rightarrow> nat" where
  "Ki n = n * 1024"

definition Mi :: "nat \<Rightarrow> nat" where
  "Mi n = n * 1024 * 1024"

text \<open>
  Modelled from the spec: \<open>split\<close> of a \<open>table_slice\<close> and of a vector of them are defined in
  \<open>table_slice.cpp\<close>, which is not among the sources. The spec says "\<open>split(x, n)\<close> returns
  \<open>(prefix_of_n, remainder)\<close>; if \<open>n == 0\<close> the prefix is empty; if \<open>n \<ge> size(x)\<close> the
  remainder is empty", and that the split of a vector "partitions along the element boundary,
  splitting the straddling element with the single-chunk \<open>split\<close>".
\<close>

definition split_table_slice :: "'r table_slice \<Rightarrow> nat \<Rightarrow> 'r table_slice \<times> 'r table_slice" where
  "split_table_slice sl partition_point = (take partition_point sl, drop partition_point sl)"

definition split_table_slices ::
  "'r table_slice list \<Rightarrow> nat \<Rightarrow> 'r table_slice list \<times> 'r table_slice list" where
  "split_table_slices events partition_point =
     split_loop size_table_slice split_table_slice [] events partition_point"

text \<open>\<open>defaults<table_slice>\<close> and \<open>defaults<chunk_ptr>\<close>.\<close>

definition table_slice_type :: "'r table_slice element_type" where
  "table_slice_type =
     \<lparr>size_of = size_table_slice, split_of = split_table_slices,
      max_batch_size = Ki 64, min_batch_size = Ki 8, max_buffered = Ki 254\<rparr>"

definition chunk_ptr_type :: "chunk_ptr element_type" where
  "chunk_ptr_type =
     \<lparr>size_of = size_chunk_ptr, split_of = split_chunk_ptrs,
      max_batch_size = Mi 1, min_batch_size = Ki 128, max_buffered = Mi 4\<rparr>"

text \<open>\<open>defaults<>::max_batch_timeout\<close> (250 ms, in nanoseconds).\<close>

definition max_batch_timeout :: nat where
  "max_batch_timeout = 250 * 1000000"

text \<open>Arithmetic on \<open>uint64_t\<close> wraps around.\<close>

definition u64_add :: "nat \<Rightarrow> nat \<Rightarrow> nat" where
  "u64_add a b = (a + b) mod 2 ^ 64"

definition u64_sub :: "nat \<Rightarrow> nat \<Rightarrow> nat" where
  "u64_sub a b = (a + 2 ^ 64 - b mod 2 ^ 64) mod 2 ^ 64"

text \<open>
  \<open>std::transform_reduce(xs.begin(), xs.end(), uint64_t{}, std::plus{}, size)\<close>.
\<close>

definition transform_reduce_size :: "('a \<Rightarrow> nat) \<Rightarrow> 'a list \<Rightarrow> nat" where
  "transform_reduce_size sz xs = fold (\<lambda>x acc. u64_add acc (sz x)) xs 0"

subsection \<open>State\<close>

type_synonym actor = nat
type_synonym promise = nat
type_synonym time_point = nat
type_synonym duration = nat

text \<open>\<open>outbound_state_mixin::demand\<close>.\<close>

record demand =
  rp :: promise
  sink :: actor
  batch_size :: nat
  batch_timeout :: time_point
  ongoing :: bool

text \<open>
  What a handler does to the world outside the node state: the requests and messages it
  sends, the response promises it fulfils, the delayed actions it registers, and \<open>quit\<close>.
  They are appended to the field \<open>outbox\<close> in the order in which the code performs them.
  \<open>Send_push\<close> carries the flag that tells whether the response is awaited (\<open>.await\<close>) or
  not (\<open>.then\<close>).
\<close>

datatype 'o effect =
    Send_diagnostic diagnostic
  | Send_pull actor nat duration
  | Send_push actor "'o list" bool
  | Send_start actor "actor list"
  | Send_exit actor
  | Monitor actor
  | Deliver promise "caf_error option"
  | Run_delayed duration "'o effect"
  | Quit "caf_error option"

text \<open>
  The input adapter is a coroutine; between two resumptions it is suspended before its outer
  loop (not yet started, or after the \<open>co_yield {}\<close>), inside its inner loop (after a
  \<open>co_yield std::move(next)\<close>), or it has returned.
\<close>

datatype adapter_pc = At_outer | At_inner | Returned

text \<open>
  The state of \<open>exec_node_state<Input, Output>\<close> with both mixins, the flag
  \<open>has_seen_error_\<close> of the node's diagnostic handler, the suspension point of the input
  adapter, the captured \<open>capped_demand\<close> of the response handlers of a push request that has
  not been answered yet (\<open>push_handlers\<close>), and the outbox. \<open>instance_it\<close> (the field \<open>instance\<close>) is \<open>None\<close> until the
  operator is instantiated; then it holds the value \<open>*instance->it\<close> of the generator's
  iterator, or \<open>None\<close> when the iterator is at \<open>instance->gen.end()\<close>. The time metrics are
  left out.
\<close>

record ('i, 'o) exec_node_state =
  previous :: "actor option"
  signaled_demand :: bool
  inbound_buffer :: "'i list"
  inbound_buffer_size :: nat
  outbound_buffer :: "'o list"
  outbound_buffer_size :: nat
  current_demand :: "demand option"
  reject_demand :: bool
  op_name :: string
  instance_it :: "'o option option"
  inbound_total :: nat
  num_inbound_batches :: nat
  outbound_total :: nat
  num_outbound_batches :: nat
  stalled :: bool
  run_scheduled :: bool
  abort :: "caf_error option"
  has_seen_error :: bool
  adapter :: adapter_pc
  push_handlers :: "nat option"
  outbox :: "'o effect list"

text \<open>The state of a node that was spawned for the operator \<open>name\<close> and has handled no message.\<close>

definition spawned :: "string \<Rightarrow> ('i, 'o) exec_node_state" where
  "spawned name =
     \<lparr>previous = None, signaled_demand = False, inbound_buffer = [], inbound_buffer_size = 0,
      outbound_buffer = [], outbound_buffer_size = 0, current_demand = None,
      reject_demand = False, op_name = name, instance_it = None, inbound_total = 0,
      num_inbound_batches = 0, outbound_total = 0, num_outbound_batches = 0, stalled = False,
      run_scheduled = False, abort = None, has_seen_error = False, adapter = At_outer,
      push_handlers = None, outbox = []\<rparr>"

definition perform :: "'o effect \<Rightarrow> ('i, 'o) exec_node_state \<Rightarrow> ('i, 'o) exec_node_state" where
  "perform eff st = st\<lparr>outbox := outbox st @ [eff]\<rparr>"

text \<open>
  What a message handler returns as \<open>caf::result<void>\<close>: a value or an error, which is sent
  as the response at once, or nothing yet, when the handler returns a response promise or has
  delegated the message, or has made a response promise before it returns (the response is
  then whatever is delivered to the promise).
\<close>

datatype reply = Reply_now "caf_error option" | Reply_later

subsection \<open>Control plane and diagnostic handler\<close>

text \<open>
  \<open>exec_node_control_plane::abort\<close> and \<open>exec_node_diagnostic_handler::emit\<close> call each
  other: \<open>abort\<close> emits a diagnostic for an error that is not \<open>silent\<close>, and \<open>emit\<close>
  calls \<open>abort(ec::silent)\<close> at the first diagnostic of severity \<open>error\<close>.
\<close>

function ctrl_abort :: "caf_error \<Rightarrow> ('i, 'o) exec_node_state \<Rightarrow> ('i, 'o) exec_node_state"
  and diagnostics_emit :: "diagnostic \<Rightarrow> ('i, 'o) exec_node_state \<Rightarrow> ('i, 'o) exec_node_state" where
  "ctrl_abort err st =
     (let st1 =
        (if code err \<noteq> Ec_silent then
           diagnostics_emit
             \<lparr>severity = Severity_error, diag_message = to_string err,
              diag_notes = [''from '' @ op_name st]\<rparr> st
         else st)
      in if abort st1 = None then st1\<lparr>abort := Some (Error Ec_silent (to_string err))\<rparr>
         else st1)"
| "diagnostics_emit d st =
     (let st1 = perform (Send_diagnostic d) st
      in if severity d = Severity_error \<and> \<not> has_seen_error st1 then
           ctrl_abort (Error Ec_silent []) (st1\<lparr>has_seen_error := True\<rparr>)
         else st1)"
  by pat_completeness auto
termination
  by (relation "measure (\<lambda>x. case x of
        Inl (err, st) \<Rightarrow> (if code err = Ec_silent then 0 else 2)
      | Inr (d, st) \<Rightarrow> 1)") auto

text \<open>\<open>exec_node_control_plane::warn\<close>.\<close>

definition ctrl_warn :: "caf_error \<Rightarrow> ('i, 'o) exec_node_state \<Rightarrow> ('i, 'o) exec_node_state" where
  "ctrl_warn err st =
     (if code err \<noteq> Ec_silent then
        diagnostics_emit
          \<lparr>severity = Severity_warning, diag_message = to_string err,
           diag_notes = [''from '' @ op_name st]\<rparr> st
      else st)"

text \<open>The diagnostics of severity \<open>error\<close> among the effects.\<close>

fun is_error_diagnostic :: "'o effect \<Rightarrow> bool" where
  "is_error_diagnostic (Send_diagnostic d) = (severity d = Severity_error)"
| "is_error_diagnostic _ = False"

definition error_diagnostics :: "('i, 'o) exec_node_state \<Rightarrow> 'o effect list" where
  "error_diagnostics st = filter is_error_diagnostic (outbox st)"

text \<open>The diagnostic that \<open>abort\<close> builds for the error \<open>err\<close> in the node of the operator \<open>name\<close>.\<close>

definition error_diagnostic_of :: "caf_error \<Rightarrow> string \<Rightarrow> 'o effect" where
  "error_diagnostic_of err name =
     Send_diagnostic \<lparr>severity = Severity_error, diag_message = to_string err,
        diag_notes = [''from '' @ name]\<rparr>"

subsection \<open>Scheduling\<close>

text \<open>
  \<open>schedule_run\<close>. The scheduled action is represented by the flag \<open>run_scheduled\<close>; when
  it fires it clears the flag and calls \<open>run\<close> (\<open>scheduled_action\<close> below).
\<close>

definition schedule_run :: "('i, 'o) exec_node_state \<Rightarrow> ('i, 'o) exec_node_state" where
  "schedule_run st =
     (if instance_it st = None \<or> run_scheduled st then st
      else st\<lparr>run_scheduled := True\<rparr>)"

text \<open>\<open>self->quit(reason)\<close>.\<close>

definition quit :: "caf_error option \<Rightarrow> ('i, 'o) exec_node_state \<Rightarrow> ('i, 'o) exec_node_state" where
  "quit reason st = perform (Quit reason) st"

subsection \<open>Requesting input\<close>

text \<open>
  \<open>request_more_input\<close>, for a node with an input type. A failed \<open>VAST_ASSERT\<close> is the
  result \<open>None\<close>, here and below.
\<close>

definition request_more_input ::
  "'i element_type \<Rightarrow> ('i, 'o) exec_node_state \<Rightarrow> ('i, 'o) exec_node_state option" where
  "request_more_input it st =
     (if \<not> inbound_buffer_size st \<le> max_buffered it then None
      else
        (let batch_sz = min (u64_sub (max_buffered it) (inbound_buffer_size st)) (max_batch_size it)
         in case previous st of
              None \<Rightarrow> Some st
            | Some prev \<Rightarrow>
                if signaled_demand st \<or> batch_sz < min_batch_size it then Some st
                else Some (perform (Send_pull prev batch_sz max_batch_timeout)
                             (st\<lparr>signaled_demand := True\<rparr>))))"

text \<open>The two response handlers of the pull request, \<open>handle_result\<close> and \<open>handle_error\<close>.\<close>

definition pull_succeeded :: "('i, 'o) exec_node_state \<Rightarrow> ('i, 'o) exec_node_state" where
  "pull_succeeded st = schedule_run (st\<lparr>signaled_demand := False\<rparr>)"

definition pull_failed :: "caf_error \<Rightarrow> ('i, 'o) exec_node_state \<Rightarrow> ('i, 'o) exec_node_state" where
  "pull_failed err st =
     (let st1 = schedule_run (st\<lparr>signaled_demand := False\<rparr>)
      in if code err = Sec_request_receiver_down then st1\<lparr>previous := None\<rparr>
         else if previous st1 \<noteq> None then
           diagnostics_emit
             \<lparr>severity = Severity_warning, diag_message = to_string err,
              diag_notes = [op_name st1 @ '' failed to pull from previous execution node'']\<rparr> st1
         else st1)"

subsection \<open>The input adapter\<close>

datatype 'i adapter_token = Element 'i | Empty_token | End_of_input

text \<open>
  One resumption of the coroutine \<open>make_input_adapter\<close>, from the condition of the inner
  loop (\<open>inner\<close>) or from the condition of the outer loop, up to its next \<open>co_yield\<close> or its
  return. When the size counter is positive and the buffer is empty the two loops alternate
  forever; the result is then \<open>None\<close>, as it is for a failed assertion.
\<close>

partial_function (option) input_adapter ::
  "'i element_type \<Rightarrow> bool \<Rightarrow> ('i, 'o) exec_node_state
   \<Rightarrow> ('i adapter_token \<times> ('i, 'o) exec_node_state) option" where
  "input_adapter it inner st =
     (if inner then
        (case inbound_buffer st of
           next # rest \<Rightarrow>
             if size_of it next = 0 then None
             else Some (Element next,
               st\<lparr>inbound_buffer_size := u64_sub (inbound_buffer_size st) (size_of it next),
                  inbound_buffer := rest, stalled := False, adapter := At_inner\<rparr>)
         | [] \<Rightarrow> input_adapter it False st)
      else if previous st \<noteq> None \<or> inbound_buffer_size st > 0 \<or> signaled_demand st then
        (if inbound_buffer_size st = 0 then
           (if inbound_buffer st \<noteq> [] then None
            else Some (Empty_token, st\<lparr>stalled := True, adapter := At_outer\<rparr>))
         else input_adapter it True st)
      else Some (End_of_input, st\<lparr>stalled := False, adapter := Returned\<rparr>))"

definition adapter_resume ::
  "'i element_type \<Rightarrow> ('i, 'o) exec_node_state
   \<Rightarrow> ('i adapter_token \<times> ('i, 'o) exec_node_state) option" where
  "adapter_resume it st =
     (case adapter st of
        At_outer \<Rightarrow> input_adapter it False st
      | At_inner \<Rightarrow> input_adapter it True st
      | Returned \<Rightarrow> Some (End_of_input, st))"

subsection \<open>The operator's generator\<close>

text \<open>
  The operator is code from outside this file. When its generator is resumed
  (\<open>++instance->it\<close>, or \<open>gen.begin()\<close>) it can advance its input, which resumes the input
  adapter, and call \<open>abort\<close> and \<open>warn\<close> of the control plane, any number of times, before
  it yields a value or returns. A resumption is given by these actions and by the value
  yielded, or \<open>None\<close> when the generator returns.
\<close>

datatype op_action = Next_input | Ctrl_abort caf_error | Ctrl_warn caf_error

type_synonym 'o resumption = "op_action list \<times> 'o option"

fun perform_actions ::
  "'i element_type option \<Rightarrow> op_action list \<Rightarrow> ('i, 'o) exec_node_state
   \<Rightarrow> ('i, 'o) exec_node_state option" where
  "perform_actions inp [] st = Some st"
| "perform_actions inp (Next_input # as) st =
     (case inp of
        None \<Rightarrow> perform_actions inp as st
      | Some it \<Rightarrow>
          (case adapter_resume it st of
             None \<Rightarrow> None
           | Some (token, st') \<Rightarrow> perform_actions inp as st'))"
| "perform_actions inp (Ctrl_abort err # as) st = perform_actions inp as (ctrl_abort err st)"
| "perform_actions inp (Ctrl_warn err # as) st = perform_actions inp as (ctrl_warn err st)"

definition resume_generator ::
  "'i element_type option \<Rightarrow> 'o resumption \<Rightarrow> ('i, 'o) exec_node_state
   \<Rightarrow> ('i, 'o) exec_node_state option" where
  "resume_generator inp r st =
     map_option (\<lambda>st'. st'\<lparr>instance_it := Some (snd r)\<rparr>) (perform_actions inp (fst r) st)"

text \<open>
  \<open>advance_generator\<close>. The result is the returned flag and the new state. The local
  variable \<open>empty\<close> of the source is set to \<open>true\<close> in the branch that buffers the element.
\<close>

definition advance_generator ::
  "'i element_type option \<Rightarrow> 'o element_type option \<Rightarrow> 'o resumption
   \<Rightarrow> ('i, 'o) exec_node_state \<Rightarrow> (bool \<times> ('i, 'o) exec_node_state) option" where
  "advance_generator inp outp r st =
     (case instance_it st of
        None \<Rightarrow> None
      | Some None \<Rightarrow> None
      | Some (Some next) \<Rightarrow>
          (case outp of
             Some ot \<Rightarrow>
               if outbound_buffer_size st \<ge> max_buffered ot then Some (False, st)
               else
                 (case resume_generator inp r st of
                    None \<Rightarrow> None
                  | Some st1 \<Rightarrow>
                      (let empty = (size_of ot next > 0);
                           st2 = (if size_of ot next > 0 then
                                    st1\<lparr>outbound_buffer_size :=
                                          u64_add (outbound_buffer_size st1) (size_of ot next),
                                        outbound_buffer := outbound_buffer st1 @ [next]\<rparr>
                                  else st1)
                       in if abort st2 \<noteq> None then Some (False, quit (abort st2) st2)
                          else Some (\<not> empty \<and> instance_it st2 \<noteq> Some None, st2)))
           | None \<Rightarrow>
               (case resume_generator inp r st of
                  None \<Rightarrow> None
                | Some st1 \<Rightarrow>
                    if abort st1 \<noteq> None then Some (False, quit (abort st1) st1)
                    else Some (instance_it st1 \<noteq> Some None, st1))))"

subsection \<open>Delivering batches\<close>

text \<open>\<open>deliver_batches\<close>, for a node with an output type.\<close>

definition deliver_batches ::
  "'o element_type \<Rightarrow> time_point \<Rightarrow> bool \<Rightarrow> ('i, 'o) exec_node_state
   \<Rightarrow> ('i, 'o) exec_node_state option" where
  "deliver_batches ot now force st =
     (case current_demand st of
        None \<Rightarrow> Some st
      | Some d \<Rightarrow>
          if ongoing d then Some st
          else
            (case instance_it st of
               None \<Rightarrow> None
             | Some it \<Rightarrow>
                 if \<not> force \<and> ((it = None \<or> outbound_buffer_size st < batch_size d)
                                \<and> batch_timeout d > now) then Some st
                 else
                   (let st1 = st\<lparr>current_demand := Some (d\<lparr>ongoing := True\<rparr>)\<rparr>;
                        capped_demand = min (outbound_buffer_size st1) (batch_size d)
                    in if capped_demand = 0 then
                         Some (schedule_run
                                 ((perform (Deliver (rp d) None) st1)\<lparr>current_demand := None\<rparr>))
                       else
                         (let (lhs, _) = split_of ot (outbound_buffer st1) capped_demand
                          in Some ((perform
                                (Send_push (sink d) lhs
                                   (force \<or> outbound_buffer_size st1 \<ge> max_buffered ot)) st1)
                              \<lparr>push_handlers := Some capped_demand\<rparr>)))))"

text \<open>
  The response handlers of the push request, \<open>handle_result\<close> and \<open>handle_error\<close>, with the
  captured \<open>capped_demand\<close>. Both dereference \<open>current_demand\<close>.
\<close>

definition push_succeeded ::
  "'o element_type \<Rightarrow> nat \<Rightarrow> ('i, 'o) exec_node_state \<Rightarrow> ('i, 'o) exec_node_state option" where
  "push_succeeded ot capped_demand st =
     (let st1 = st\<lparr>outbound_total := u64_add (outbound_total st) capped_demand\<rparr>;
          (lhs, rhs) = split_of ot (outbound_buffer st1) capped_demand;
          st2 = st1\<lparr>num_outbound_batches := u64_add (num_outbound_batches st1) (length lhs),
                    outbound_buffer := rhs,
                    outbound_buffer_size := transform_reduce_size (size_of ot) rhs\<rparr>
      in case current_demand st2 of
           None \<Rightarrow> None
         | Some d \<Rightarrow>
             Some (schedule_run
               ((perform (Deliver (rp d) None) st2)
                  \<lparr>current_demand := None, push_handlers := None\<rparr>)))"

definition push_failed ::
  "caf_error \<Rightarrow> ('i, 'o) exec_node_state \<Rightarrow> ('i, 'o) exec_node_state option" where
  "push_failed err st =
     (case current_demand st of
        None \<Rightarrow> None
      | Some d \<Rightarrow>
          Some (schedule_run
            ((perform (Deliver (rp d) (Some err)) st)
               \<lparr>current_demand := None, push_handlers := None\<rparr>)))"

subsection \<open>The run loop\<close>

text \<open>
  \<open>run\<close>. \<open>now\<close> is the value of \<open>std::chrono::steady_clock::now()\<close>, and \<open>r\<close> is what
  the operator does if its generator is resumed in this run; the loop over
  \<open>max_advances_per_run\<close>, which is 1, calls \<open>advance_generator\<close> once. \<open>print_metrics\<close>
  only logs.
\<close>

definition run ::
  "'i element_type option \<Rightarrow> 'o element_type option \<Rightarrow> time_point \<Rightarrow> 'o resumption
   \<Rightarrow> ('i, 'o) exec_node_state \<Rightarrow> ('i, 'o) exec_node_state option" where
  "run inp outp now r st =
     (case instance_it st of
        None \<Rightarrow> None
      | Some None \<Rightarrow>
          (let st1 = (case (inp, previous st) of
                        (Some _, Some prev) \<Rightarrow> perform (Send_exit prev) st
                      | _ \<Rightarrow> st)
           in case outp of
                Some ot \<Rightarrow>
                  (let st2 = (if current_demand st1 \<noteq> None \<and> outbound_buffer_size st1 = 0
                              then st1\<lparr>reject_demand := True\<rparr> else st1)
                   in if current_demand st2 \<noteq> None \<or> outbound_buffer_size st2 > 0 then
                        map_option schedule_run (deliver_batches ot now True st2)
                      else Some (quit None st2))
              | None \<Rightarrow> Some (quit None st1))
      | Some (Some _) \<Rightarrow>
          (case (case outp of Some ot \<Rightarrow> deliver_batches ot now False st | None \<Rightarrow> Some st) of
             None \<Rightarrow> None
           | Some st1 \<Rightarrow>
               (case (case inp of Some it \<Rightarrow> request_more_input it st1 | None \<Rightarrow> Some st1) of
                  None \<Rightarrow> None
                | Some st2 \<Rightarrow>
                    (case advance_generator inp outp r st2 of
                       None \<Rightarrow> None
                     | Some (_, st3) \<Rightarrow>
                         (case outp of
                            None \<Rightarrow>
                              if \<not> stalled st3 then Some (schedule_run st3)
                              else if signaled_demand st3 then Some st3
                              else None
                          | Some ot \<Rightarrow>
                              (case inp of
                                 None \<Rightarrow>
                                   if \<not> stalled st3
                                      \<and> (current_demand st3 \<noteq> None
                                           \<or> (outbound_buffer_size st3 < max_buffered ot
                                               \<and> instance_it st3 \<noteq> Some None))
                                   then Some (schedule_run st3) else Some st3
                               | Some _ \<Rightarrow>
                                   (let can_generate =
                                          (outbound_buffer_size st3 < max_buffered ot
                                           \<and> instance_it st3 \<noteq> Some None);
                                        should_produce = (current_demand st3 \<noteq> None);
                                        is_previous_dead = (previous st3 = None)
                                    in if is_previous_dead
                                          \<or> (\<not> stalled st3 \<and> (should_produce \<or> can_generate))
                                       then Some (schedule_run st3) else Some st3)))))))"

text \<open>The action that \<open>schedule_run\<close> registers.\<close>

definition scheduled_action ::
  "'i element_type option \<Rightarrow> 'o element_type option \<Rightarrow> time_point \<Rightarrow> 'o resumption
   \<Rightarrow> ('i, 'o) exec_node_state \<Rightarrow> ('i, 'o) exec_node_state option" where
  "scheduled_action inp outp now r st =
     (if \<not> run_scheduled st then None
      else run inp outp now r (st\<lparr>run_scheduled := False\<rparr>))"

subsection \<open>The message handlers\<close>

text \<open>
  \<open>pull\<close>, for a node with an output type. \<open>response_promise\<close> is the promise that
  \<open>self->make_response_promise<void>()\<close> makes for the pull request being handled. In the
  branch for \<open>reject_demand\<close> the handler has made the promise before it returns \<open>{}\<close>, so
  nothing is sent when it returns; the response is what the delayed action delivers.
\<close>

definition pull ::
  "actor \<Rightarrow> nat \<Rightarrow> duration \<Rightarrow> time_point \<Rightarrow> promise \<Rightarrow> ('i, 'o) exec_node_state
   \<Rightarrow> reply \<times> ('i, 'o) exec_node_state" where
  "pull snk batch_sz timeout now response_promise st =
     (if reject_demand st then
        (Reply_later, perform (Run_delayed timeout (Deliver response_promise None)) st)
      else
        (let st1 = schedule_run st
         in if current_demand st1 \<noteq> None then
              (Reply_now (Some (Error Ec_logic_error ''concurrent pull'')), st1)
            else
              (Reply_later,
               st1\<lparr>current_demand := Some
                   \<lparr>rp = response_promise, sink = snk, batch_size = batch_sz,
                    batch_timeout = now + timeout, ongoing = False\<rparr>\<rparr>)))"

text \<open>\<open>push\<close>, for a node with an input type.\<close>

definition push ::
  "'i element_type \<Rightarrow> 'i list \<Rightarrow> ('i, 'o) exec_node_state \<Rightarrow> reply \<times> ('i, 'o) exec_node_state" where
  "push it input st =
     (let st1 = schedule_run st;
          input_size = transform_reduce_size (size_of it) input;
          st2 = st1\<lparr>num_inbound_batches := u64_add (num_inbound_batches st1) (length input)\<rparr>
      in if input_size = 0 then
           (Reply_now (Some (Error Ec_logic_error ''received empty batch'')), st2)
         else if u64_add (inbound_buffer_size st2) input_size > max_buffered it then
           (Reply_now (Some (Error Ec_logic_error ''inbound buffer full'')), st2)
         else
           (Reply_now None,
            st2\<lparr>inbound_buffer := inbound_buffer st2 @ input,
                inbound_buffer_size := u64_add (inbound_buffer_size st2) input_size,
                inbound_total := u64_add (inbound_total st2) input_size\<rparr>))"

text \<open>The down handler that \<open>start\<close> installs, for the down message of \<open>source\<close>.\<close>

definition down_handler ::
  "actor \<Rightarrow> caf_error option \<Rightarrow> ('i, 'o) exec_node_state \<Rightarrow> ('i, 'o) exec_node_state" where
  "down_handler source reason st =
     (if previous st \<noteq> Some source then st
      else
        (let st1 = schedule_run (st\<lparr>previous := None, signaled_demand := False\<rparr>)
         in case reason of
              None \<Rightarrow> st1
            | Some err \<Rightarrow>
                ctrl_abort (Error Ec_unspecified
                  (op_name st1 @ '' shuts down because of irregular exit of previous operator: ''
                     @ to_string err)) st1))"

text \<open>
  \<open>start\<close>. What \<open>op->instantiate\<close> returns depends on the operator: an error, a generator
  of another element type, or the generator, whose resumption by \<open>gen.begin()\<close> is given.
  A sink sends the start request to its predecessor and answers later; a transformation
  delegates the message to its predecessor; a source answers at once.
\<close>

datatype 'o instantiated =
    Instantiate_failed caf_error
  | Other_output_type
  | Generator "'o resumption"

definition start ::
  "'i element_type option \<Rightarrow> 'o element_type option \<Rightarrow> actor list \<Rightarrow> 'o instantiated
   \<Rightarrow> ('i, 'o) exec_node_state \<Rightarrow> (reply \<times> ('i, 'o) exec_node_state) option" where
  "start inp outp prev_chain instantiate st =
     (if instance_it st \<noteq> None then
        Some (Reply_now (Some (Error Ec_logic_error ''was already started'')), st)
      else if inp = None \<and> prev_chain \<noteq> [] then
        Some (Reply_now (Some (Error Ec_logic_error
          ''runs a source operator and must not have a previous exec-node'')), st)
      else if inp \<noteq> None \<and> prev_chain = [] then
        Some (Reply_now (Some (Error Ec_logic_error
          ''runs a transformation/sink operator and must have a previous exec-node'')), st)
      else
        (let st1 = (if inp \<noteq> None
                    then perform (Monitor (last prev_chain)) (st\<lparr>previous := Some (last prev_chain)\<rparr>)
                    else st);
             rest = (if inp \<noteq> None then butlast prev_chain else prev_chain)
         in case instantiate of
              Instantiate_failed err \<Rightarrow>
                Some (Reply_now (Some (Error (code err)
                  (''failed to instantiate operator: '' @ message err))), st1)
            | Other_output_type \<Rightarrow>
                Some (Reply_now (Some (Error Ec_logic_error ''unexpected output type'')), st1)
            | Generator r \<Rightarrow>
                (case resume_generator inp r st1 of
                   None \<Rightarrow> None
                 | Some st2 \<Rightarrow>
                     if abort st2 \<noteq> None then Some (Reply_now (abort st2), st2)
                     else if outp = None \<or> inp \<noteq> None then
                       (case previous st2 of
                          Some prev \<Rightarrow> Some (Reply_later, perform (Send_start prev rest) st2)
                        | None \<Rightarrow> None)
                     else Some (Reply_now None, st2))))"

text \<open>
  The response handlers of the start request that a sink sends to its predecessor;
  \<open>response_promise\<close> is the promise made for the sink's own start message.
\<close>

definition start_succeeded :: "promise \<Rightarrow> ('i, 'o) exec_node_state \<Rightarrow> ('i, 'o) exec_node_state" where
  "start_succeeded response_promise st = perform (Deliver response_promise None) (schedule_run st)"

definition start_failed ::
  "promise \<Rightarrow> caf_error \<Rightarrow> ('i, 'o) exec_node_state \<Rightarrow> ('i, 'o) exec_node_state" where
  "start_failed response_promise err st = perform (Deliver response_promise (Some err)) st"

text \<open>A response that is sent at once and is an error with the code \<open>logic_error\<close>.\<close>

definition logic_error_reply :: "reply \<Rightarrow> bool" where
  "logic_error_reply r =
     (case r of Reply_now (Some err) \<Rightarrow> code err = Ec_logic_error | _ \<Rightarrow> False)"

subsection \<open>The states a node reaches\<close>

text \<open>
  A node is an actor: it handles one message, response or scheduled action at a time, and
  handles nothing after \<open>quit\<close>. The handlers are the functions above; what the rest of the
  world contributes is the content of the messages, the clock, and what the operator does
  when its generator is resumed.
\<close>

fun is_quit :: "'o effect \<Rightarrow> bool" where
  "is_quit (Quit reason) = True"
| "is_quit _ = False"

definition running :: "('i, 'o) exec_node_state \<Rightarrow> bool" where
  "running st = (\<not> list_ex is_quit (outbox st))"

text \<open>
  The sizes of batches and chunks are counts of rows and bytes held in memory; they are
  taken to be below \<open>2 ^ 63\<close>.
\<close>

definition sound_resumption :: "'o element_type option \<Rightarrow> 'o resumption \<Rightarrow> bool" where
  "sound_resumption outp r =
     (case (outp, snd r) of (Some ot, Some x) \<Rightarrow> size_of ot x < 2 ^ 63 | _ \<Rightarrow> True)"

definition sound_instantiation :: "'o element_type option \<Rightarrow> 'o instantiated \<Rightarrow> bool" where
  "sound_instantiation outp instantiate =
     (case instantiate of Generator r \<Rightarrow> sound_resumption outp r | _ \<Rightarrow> True)"

text \<open>
  \<open>reachable inp outp accepts name st\<close>: the node of the operator \<open>name\<close> with the input
  type \<open>inp\<close> and the output type \<open>outp\<close> can be in the state \<open>st\<close> between two handlers,
  when the vectors pushed to it satisfy \<open>accepts\<close>. The response handlers of a push request
  run only while the request is unanswered (\<open>push_handlers\<close>).
\<close>

inductive reachable ::
  "'i element_type option \<Rightarrow> 'o element_type option \<Rightarrow> ('i list \<Rightarrow> bool) \<Rightarrow> string
   \<Rightarrow> ('i, 'o) exec_node_state \<Rightarrow> bool"
  for inp :: "'i element_type option" and outp :: "'o element_type option"
    and accepts :: "'i list \<Rightarrow> bool" and name :: string where
  at_spawn: "reachable inp outp accepts name (spawned name)"
| on_start:
    "\<lbrakk>reachable inp outp accepts name st; running st; sound_instantiation outp instantiate;
      start inp outp prev_chain instantiate st = Some (r, st')\<rbrakk>
     \<Longrightarrow> reachable inp outp accepts name st'"
| on_start_response:
    "\<lbrakk>reachable inp outp accepts name st; running st\<rbrakk>
     \<Longrightarrow> reachable inp outp accepts name (start_succeeded response_promise st)"
| on_start_error:
    "\<lbrakk>reachable inp outp accepts name st; running st\<rbrakk>
     \<Longrightarrow> reachable inp outp accepts name (start_failed response_promise err st)"
| on_push:
    "\<lbrakk>reachable inp outp accepts name st; running st; inp = Some it; accepts input;
      push it input st = (r, st')\<rbrakk>
     \<Longrightarrow> reachable inp outp accepts name st'"
| on_pull:
    "\<lbrakk>reachable inp outp accepts name st; running st; outp = Some ot;
      pull snk batch_sz timeout now response_promise st = (r, st')\<rbrakk>
     \<Longrightarrow> reachable inp outp accepts name st'"
| on_scheduled_action:
    "\<lbrakk>reachable inp outp accepts name st; running st; sound_resumption outp r;
      scheduled_action inp outp now r st = Some st'\<rbrakk>
     \<Longrightarrow> reachable inp outp accepts name st'"
| on_push_response:
    "\<lbrakk>reachable inp outp accepts name st; running st; outp = Some ot;
      push_handlers st = Some capped_demand; push_succeeded ot capped_demand st = Some st'\<rbrakk>
     \<Longrightarrow> reachable inp outp accepts name st'"
| on_push_error:
    "\<lbrakk>reachable inp outp accepts name st; running st; outp = Some ot;
      push_handlers st = Some capped_demand; push_failed err st = Some st'\<rbrakk>
     \<Longrightarrow> reachable inp outp accepts name st'"
| on_pull_response:
    "\<lbrakk>reachable inp outp accepts name st; running st; inp = Some it\<rbrakk>
     \<Longrightarrow> reachable inp outp accepts name (pull_succeeded st)"
| on_pull_error:
    "\<lbrakk>reachable inp outp accepts name st; running st; inp = Some it\<rbrakk>
     \<Longrightarrow> reachable inp outp accepts name (pull_failed err st)"
| on_down:
    "\<lbrakk>reachable inp outp accepts name st; running st; inp = Some it\<rbrakk>
     \<Longrightarrow> reachable inp outp accepts name (down_handler source reason st)"

text \<open>The vectors of the push requests among the effects, in the order they were sent.\<close>

fun pushed_batches :: "'o effect list \<Rightarrow> 'o list list" where
  "pushed_batches [] = []"
| "pushed_batches (Send_push snk batch awaited # effs) = batch # pushed_batches effs"
| "pushed_batches (eff # effs) = pushed_batches effs"

text \<open>Every element of a vector has a size greater than zero.\<close>

definition no_empty_element :: "('a \<Rightarrow> nat) \<Rightarrow> 'a list \<Rightarrow> bool" where
  "no_empty_element sz xs = list_all (\<lambda>x. sz x > 0) xs"

text \<open>
  The invariant of the outbound side of a node, in two parts. The first: a node that rejects
  demand has no demand. The second, for the output type \<open>ot\<close>: while a push request is
  unanswered the buffer is not empty; \<open>outbound_buffer_size\<close> is the sum of the sizes of
  the buffered elements; no buffered element is empty; the value the generator's iterator
  points to has a size below \<open>2 ^ 63\<close>; no vector that was pushed is empty or has an
  empty element.
\<close>

definition demand_invariant :: "('i, 'o) exec_node_state \<Rightarrow> bool" where
  "demand_invariant st = (reject_demand st \<longrightarrow> current_demand st = None)"

definition buffer_invariant :: "'o element_type \<Rightarrow> ('i, 'o) exec_node_state \<Rightarrow> bool" where
  "buffer_invariant ot st =
     ((\<forall>d. current_demand st = Some d \<longrightarrow> ongoing d \<longrightarrow> outbound_buffer_size st > 0)
      \<and> outbound_buffer_size st = total_size (size_of ot) (outbound_buffer st)
      \<and> outbound_buffer_size st < 2 ^ 64
      \<and> no_empty_element (size_of ot) (outbound_buffer st)
      \<and> (\<forall>x. instance_it st = Some (Some x) \<longrightarrow> size_of ot x < 2 ^ 63)
      \<and> list_all (\<lambda>batch. no_empty_element (size_of ot) batch
                     \<and> 0 < total_size (size_of ot) batch
                     \<and> total_size (size_of ot) batch < 2 ^ 64)
           (pushed_batches (outbox st)))"

definition outbound_invariant :: "'o element_type \<Rightarrow> ('i, 'o) exec_node_state \<Rightarrow> bool" where
  "outbound_invariant ot st = (demand_invariant st \<and> buffer_invariant ot st)"

text \<open>The fields the invariant of the outbound side reads.\<close>

definition out_view ::
  "('i, 'o) exec_node_state
   \<Rightarrow> 'o list \<times> nat \<times> demand option \<times> bool \<times> 'o option option \<times> 'o list list" where
  "out_view st =
     (outbound_buffer st, outbound_buffer_size st, current_demand st, reject_demand st,
      instance_it st, pushed_batches (outbox st))"

text \<open>
  What one resumption of the input adapter does to the state \<open>st\<close>: it takes the first
  element from the buffer, which is not empty, or it yields the empty token, or it returns
  (or has returned before).
\<close>

definition adapter_step ::
  "'i element_type \<Rightarrow> ('i, 'o) exec_node_state
   \<Rightarrow> 'i adapter_token \<times> ('i, 'o) exec_node_state \<Rightarrow> bool" where
  "adapter_step it st y =
     ((\<exists>x rest. inbound_buffer st = x # rest \<and> size_of it x \<noteq> 0
          \<and> y = (Element x,
               st\<lparr>inbound_buffer_size := u64_sub (inbound_buffer_size st) (size_of it x),
                  inbound_buffer := rest, stalled := False, adapter := At_inner\<rparr>))
      \<or> y = (Empty_token, st\<lparr>stalled := True, adapter := At_outer\<rparr>)
      \<or> y = (End_of_input, st\<lparr>stalled := False, adapter := Returned\<rparr>)
      \<or> y = (End_of_input, st))"

text \<open>
  What the invariant needs of an element type: \<open>max_buffered\<close> is at most \<open>2 ^ 63\<close>, and
  the split of a vector is the loop above over a split of single elements whose two parts
  have the sizes \<open>min n (size x)\<close> and \<open>size x - n\<close>.
\<close>

definition splits_by ::
  "'a element_type \<Rightarrow> ('a \<Rightarrow> nat \<Rightarrow> 'a \<times> 'a) \<Rightarrow> bool" where
  "splits_by et spl =
     (split_of et = split_loop (size_of et) spl []
      \<and> (\<forall>x n. size_of et (fst (spl x n)) = min n (size_of et x)
               \<and> size_of et (snd (spl x n)) = size_of et x - n))"

definition sound_element_type :: "'a element_type \<Rightarrow> bool" where
  "sound_element_type et = (max_buffered et \<le> 2 ^ 63 \<and> (\<exists>spl. splits_by et spl))"

text \<open>
  The state in which \<open>run\<close>, at the end of the generator, calls \<open>deliver_batches\<close>: with
  \<open>reject_demand\<close> set if there is a demand and the outbound buffer is empty.
\<close>

definition at_end_prepared :: "('i, 'o) exec_node_state \<Rightarrow> ('i, 'o) exec_node_state" where
  "at_end_prepared st1 =
     (if current_demand st1 \<noteq> None \<and> outbound_buffer_size st1 = 0
      then st1\<lparr>reject_demand := True\<rparr> else st1)"

subsection \<open>Properties of reachable states\<close>

text \<open>The response to a pull request that meets a pending demand.\<close>

definition concurrent_pull_error :: reply where
  "concurrent_pull_error = Reply_now (Some (Error Ec_logic_error ''concurrent pull''))"

text \<open>The response to a push request whose elements have the total size zero.\<close>

definition empty_batch_error :: reply where
  "empty_batch_error = Reply_now (Some (Error Ec_logic_error ''received empty batch''))"

text \<open>
  No element of the outbound buffer of \<open>st\<close> is empty, and every vector the node has
  pushed has no empty element and a total size different from zero, so that the node
  \<open>receiver\<close>, whatever its state, does not answer it with the error for an empty batch.
\<close>

definition outbound_clean ::
  "'o element_type \<Rightarrow> ('i, 'o) exec_node_state \<Rightarrow> ('o, 'x) exec_node_state \<Rightarrow> bool" where
  "outbound_clean ot st receiver =
     (no_empty_element (size_of ot) (outbound_buffer st)
      \<and> list_all (\<lambda>batch. no_empty_element (size_of ot) batch
                     \<and> 0 < total_size (size_of ot) batch
                     \<and> fst (push ot batch receiver) \<noteq> empty_batch_error)
          (pushed_batches (outbox st)))"

subsection \<open>An example run\<close>

text \<open>
  A source of bytes whose operator yields the one chunk with the bytes 1 and 2 and then
  returns: the node after \<open>start\<close>, after a pull of one byte, after the scheduled run that
  buffers the chunk, and after the next scheduled run, which pushes the first byte.
\<close>

definition example_started :: "(unit, chunk_ptr) exec_node_state" where
  "example_started =
     (case start None (Some chunk_ptr_type) [] (Generator ([], Some (Some [1, 2]))) (spawned ''load'') of
        Some (r, st) \<Rightarrow> st | None \<Rightarrow> spawned ''load'')"

definition example_pulled :: "(unit, chunk_ptr) exec_node_state" where
  "example_pulled = snd (pull 7 1 max_batch_timeout 0 1 example_started)"

definition example_advanced :: "(unit, chunk_ptr) exec_node_state" where
  "example_advanced =
     (case scheduled_action None (Some chunk_ptr_type) 0 ([], None) example_pulled of
        Some st \<Rightarrow> st | None \<Rightarrow> example_pulled)"

definition example_delivering :: "(unit, chunk_ptr) exec_node_state" where
  "example_delivering =
     (case scheduled_action None (Some chunk_ptr_type) 1 ([], None) example_advanced of
        Some st \<Rightarrow> st | None \<Rightarrow> example_advanced)"

section \<open>Properties of split\<close>

lemma split_chunk_ptr_bytes:
  "bytes_of (fst (split_chunk_ptr x n)) @ bytes_of (snd (split_chunk_ptr x n)) = bytes_of x"
  by (cases x) (simp_all add: split_chunk_ptr_def bytes_of_def size_chunk_ptr_def chunk_slice_def)

lemma split_chunk_ptr_size_fst:
  "size_chunk_ptr (fst (split_chunk_ptr x n)) = min n (size_chunk_ptr x)"
  by (cases x) (simp_all add: split_chunk_ptr_def size_chunk_ptr_def chunk_slice_def)

lemma split_chunk_ptr_size_snd:
  "size_chunk_ptr (snd (split_chunk_ptr x n)) = size_chunk_ptr x - n"
  by (cases x) (simp_all add: split_chunk_ptr_def size_chunk_ptr_def chunk_slice_def)

lemma split_loop_bytes:
  "concat (map bytes_of (fst (split_loop size_chunk_ptr split_chunk_ptr passed cs n)))
     @ concat (map bytes_of (snd (split_loop size_chunk_ptr split_chunk_ptr passed cs n)))
   = concat (map bytes_of passed) @ concat (map bytes_of cs)"
proof (induction cs arbitrary: passed n)
  case Nil
  show ?case by simp
next
  case (Cons c cs)
  have b: "bytes_of (fst (split_chunk_ptr c n)) @ bytes_of (snd (split_chunk_ptr c n)) = bytes_of c"
    by (rule split_chunk_ptr_bytes)
  show ?case
    using Cons.IH [of "passed @ [c]" "n - size_chunk_ptr c"] b
    by (simp add: case_prod_beta)
qed

lemma split_loop_total:
  "total_size size_chunk_ptr (fst (split_loop size_chunk_ptr split_chunk_ptr passed cs n))
   = total_size size_chunk_ptr passed + min n (total_size size_chunk_ptr cs)"
proof (induction cs arbitrary: passed n)
  case Nil
  show ?case by (simp add: total_size_def)
next
  case (Cons c cs)
  show ?case
    using Cons.IH [of "passed @ [c]" "n - size_chunk_ptr c"]
    by (auto simp: total_size_def case_prod_beta split_chunk_ptr_size_fst)
qed

lemma split_loop_shape:
  "\<exists>i. i \<le> length xs
     \<and> (split_loop sz spl passed xs n = (passed @ take i xs, drop i xs)
        \<or> (\<exists>m. i < length xs \<and> m < sz (xs ! i)
             \<and> split_loop sz spl passed xs n
                 = (passed @ take i xs @ [fst (spl (xs ! i) m)],
                    snd (spl (xs ! i) m) # drop (Suc i) xs)))"
proof (induction xs arbitrary: passed n)
  case Nil
  show ?case by simp
next
  case (Cons x xs)
  consider "n = sz x" | "n < sz x" | "n > sz x" by linarith
  then show ?case
  proof cases
    case 1
    then have "split_loop sz spl passed (x # xs) n = (passed @ take 1 (x # xs), drop 1 (x # xs))"
      by simp
    then show ?thesis by (intro exI [of _ 1]) simp
  next
    case 2
    then have "split_loop sz spl passed (x # xs) n
        = (passed @ take 0 (x # xs) @ [fst (spl ((x # xs) ! 0) n)],
           snd (spl ((x # xs) ! 0) n) # drop (Suc 0) (x # xs))"
      by (simp add: case_prod_beta)
    with 2 show ?thesis by (intro exI [of _ 0]) auto
  next
    case 3
    then have step: "split_loop sz spl passed (x # xs) n = split_loop sz spl (passed @ [x]) xs (n - sz x)"
      by simp
    from Cons.IH [of "passed @ [x]" "n - sz x"] obtain i where i: "i \<le> length xs"
      and d: "split_loop sz spl (passed @ [x]) xs (n - sz x) = ((passed @ [x]) @ take i xs, drop i xs)
        \<or> (\<exists>m. i < length xs \<and> m < sz (xs ! i)
             \<and> split_loop sz spl (passed @ [x]) xs (n - sz x)
                 = ((passed @ [x]) @ take i xs @ [fst (spl (xs ! i) m)],
                    snd (spl (xs ! i) m) # drop (Suc i) xs))"
      by blast
    from i d step show ?thesis by (intro exI [of _ "Suc i"]) auto
  qed
qed

text \<open>
  C7. Splitting a chunk at \<open>n\<close> gives two chunks whose bytes concatenate to the bytes of the
  original, the prefix has \<open>min n (size x)\<close> bytes, it is empty for \<open>n = 0\<close>, and the
  remainder is empty when \<open>n\<close> is at least the size (written \<open>size x + k\<close>). Splitting a
  vector of chunks at \<open>n\<close> keeps the concatenated bytes, the prefix holds
  \<open>min n total\<close> bytes, and the cut is at an element boundary or inside exactly one
  element, which is split with the single-chunk split.
\<close>

theorem split_round_trip:
  "bytes_of (fst (split_chunk_ptr x n)) @ bytes_of (snd (split_chunk_ptr x n)) = bytes_of x
   \<and> size_chunk_ptr (fst (split_chunk_ptr x n)) = min n (size_chunk_ptr x)
   \<and> size_chunk_ptr (fst (split_chunk_ptr x 0)) = 0
   \<and> size_chunk_ptr (snd (split_chunk_ptr x (size_chunk_ptr x + k))) = 0
   \<and> concat (map bytes_of (fst (split_chunk_ptrs cs n)))
       @ concat (map bytes_of (snd (split_chunk_ptrs cs n))) = concat (map bytes_of cs)
   \<and> total_size size_chunk_ptr (fst (split_chunk_ptrs cs n))
       = min n (total_size size_chunk_ptr cs)
   \<and> (cut_at_boundary cs (split_chunk_ptrs cs n)
        \<or> cut_inside size_chunk_ptr split_chunk_ptr cs (split_chunk_ptrs cs n))"
proof -
  have shape: "cut_at_boundary cs (split_chunk_ptrs cs n)
        \<or> cut_inside size_chunk_ptr split_chunk_ptr cs (split_chunk_ptrs cs n)"
    using split_loop_shape [of cs size_chunk_ptr split_chunk_ptr "[]" n]
    unfolding cut_at_boundary_def cut_inside_def split_chunk_ptrs_def
    by (metis append_Nil fst_conv snd_conv)
  have bytes: "concat (map bytes_of (fst (split_chunk_ptrs cs n)))
       @ concat (map bytes_of (snd (split_chunk_ptrs cs n))) = concat (map bytes_of cs)"
    using split_loop_bytes [of "[]" cs n] by (simp add: split_chunk_ptrs_def)
  have total: "total_size size_chunk_ptr (fst (split_chunk_ptrs cs n))
       = min n (total_size size_chunk_ptr cs)"
    using split_loop_total [of "[]" cs n] by (simp add: split_chunk_ptrs_def total_size_def)
  show ?thesis
    using shape bytes total
    by (simp add: split_chunk_ptr_bytes split_chunk_ptr_size_fst split_chunk_ptr_size_snd)
qed

theorem split_round_trip_witness:
  "bytes_of (fst (split_chunk_ptr (Some [1, 2, 3]) 2)) @ bytes_of (snd (split_chunk_ptr (Some [1, 2, 3]) 2))
     = [1, 2, 3]
   \<and> fst (split_chunk_ptr (Some [1, 2, 3]) 2) = Some [1, 2]
   \<and> total_size size_chunk_ptr (fst (split_chunk_ptrs [Some [1, 2], None, Some [3, 4, 5]] 3)) = 3
   \<and> split_chunk_ptrs [Some [1, 2], None, Some [3, 4, 5]] 3 = ([Some [1, 2], None, Some [3]], [Some [4, 5]])"
  using split_round_trip [of "Some [1, 2, 3]" 2 0 "[Some [1, 2], None, Some [3, 4, 5]]"]
  by (simp add: split_chunk_ptr_def split_chunk_ptrs_def size_chunk_ptr_def chunk_slice_def
      bytes_of_def total_size_def)


section \<open>The slice operator with non-negative bounds\<close>

lemma to_size_t_nat: "0 \<le> x \<Longrightarrow> x < 2 ^ 64 \<Longrightarrow> to_size_t x = nat x"
  by (simp add: to_size_t_def)

text \<open>
  The loop started at \<open>offset\<close> on the rest of the input yields the rows whose positions,
  counted from \<open>offset\<close>, lie between \<open>b\<close> and \<open>e\<close>.
\<close>

lemma pbpe_loop_concat:
  assumes "offset < e" "b < e" "b - offset < 2 ^ 63" "int (length (concat input)) < 2 ^ 63"
  shows "concat (pbpe_loop b e offset input)
    = take (nat (e - offset) - nat (b - offset)) (drop (nat (b - offset)) (concat input))"
  using assms
proof (induction input arbitrary: offset)
  case Nil
  then show ?case by simp
next
  case (Cons sl input)
  show ?case
  proof (cases "rows sl = 0")
    case True
    then show ?thesis using Cons by (simp add: rows_def)
  next
    case False
    let ?n = "int (length sl)"
    have n: "?n > 0" "?n < 2 ^ 63" using False Cons.prems(4) by (simp_all add: rows_def)
    have cb: "to_size_t (max 0 (b - offset)) = nat (b - offset)"
      using Cons.prems(3) by (subst to_size_t_nat) auto
    have ce: "to_size_t (min ?n (e - offset)) = nat (min ?n (e - offset))"
      using Cons.prems(1) n by (subst to_size_t_nat) auto
    show ?thesis
    proof (cases "offset + ?n \<ge> e")
      case True
      then have m: "min ?n (e - offset) = e - offset" by simp
      have res: "pbpe_loop b e offset (sl # input)
          = [take (nat (e - offset) - nat (b - offset)) (drop (nat (b - offset)) sl)]"
        using False True cb ce m by (simp add: rows_def subslice_def Let_def)
      have le: "nat (e - offset) \<le> length sl" using True by linarith
      show ?thesis unfolding res using le by simp
    next
      case beyond: False
      then have m: "min ?n (e - offset) = ?n" by simp
      have ih: "concat (pbpe_loop b e (offset + ?n) input)
         = take (nat (e - (offset + ?n)) - nat (b - (offset + ?n)))
             (drop (nat (b - (offset + ?n))) (concat input))"
        using Cons.IH [of "offset + ?n"] beyond Cons.prems n by simp
      have res: "pbpe_loop b e offset (sl # input)
          = drop (nat (b - offset)) sl # pbpe_loop b e (offset + ?n) input"
        using False beyond cb ce m by (simp add: rows_def subslice_def Let_def)
      have a1: "nat (e - (offset + ?n)) = nat (e - offset) - length sl" by linarith
      have a2: "nat (b - (offset + ?n)) = nat (b - offset) - length sl" by linarith
      have gt: "nat (e - offset) > length sl" using beyond by linarith
      show ?thesis unfolding res using gt
        by (cases "nat (b - offset) \<le> length sl") (simp_all add: ih a1 a2)
    qed
  qed
qed

text \<open>
  C2. With a non-negative \<open>begin\<close> (or none, which stands for 0) and a non-negative
  \<open>end\<close>, for an input of \<open>N\<close> rows in any batching and \<open>0 \<le> b \<le> e \<le> N\<close>, the operator
  runs without a failed assertion and the rows it yields, in order, are the rows of the
  input at the positions \<open>b, ..., e - 1\<close>. \<open>N\<close> is below \<open>2 ^ 63\<close>, as the \<open>int64_t\<close>
  offset of the source requires. A batch that ends before position \<open>b\<close> is passed to
  \<open>subslice\<close> with \<open>begin > end\<close> and contributes no row.
\<close>

theorem slice_positive_positive:
  assumes "0 \<le> b" and "b \<le> e" and "e \<le> int (length (concat input))"
    and "int (length (concat input)) < 2 ^ 63"
  shows "map_option concat (slice_operator keeps_rows (Some b) (Some e) input)
           = Some (rows_between input (nat b) (nat e))
         \<and> (b = 0 \<longrightarrow> map_option concat (slice_operator keeps_rows None (Some e) input)
           = Some (rows_between input 0 (nat e)))"
proof -
  have pp: "map_option concat (positive_begin_positive_end input b e)
           = Some (rows_between input (nat b) (nat e))"
  proof (cases "e \<le> b")
    case True
    with assms show ?thesis
      by (simp add: positive_begin_positive_end_def rows_between_def)
  next
    case False
    then have "concat (pbpe_loop b e 0 input)
        = take (nat (e - 0) - nat (b - 0)) (drop (nat (b - 0)) (concat input))"
      using assms by (intro pbpe_loop_concat) auto
    with False assms show ?thesis
      by (simp add: positive_begin_positive_end_def rows_between_def)
  qed
  show ?thesis using pp assms by (auto simp: slice_operator_def value_or_def)
qed

theorem slice_positive_positive_witness:
  "map_option concat (slice_operator True (Some 1) (Some 6) [[0::nat, 1, 2], [3, 4], [5, 6, 7]])
     = Some [1, 2, 3, 4, 5]
   \<and> map_option concat (slice_operator True None (Some 4) [[0::nat, 1, 2], [3, 4], [5, 6, 7]])
     = Some [0, 1, 2, 3]"
  using slice_positive_positive [of 1 6 "[[0::nat, 1, 2], [3, 4], [5, 6, 7]]" True]
    slice_positive_positive [of 0 4 "[[0::nat, 1, 2], [3, 4], [5, 6, 7]]" True]
  by (simp add: rows_between_def)

section \<open>The slice operator with a negative begin and a non-negative end\<close>

text \<open>
  C3. Three batches of two rows each, \<open>begin = -5\<close> and \<open>end = 2\<close>: with \<open>N = 6\<close> the rows
  at the positions from \<open>(N + begin) mod N = 1\<close> up to \<open>(N + end) mod N = 2\<close> are the single
  row 1. The first loop of \<open>negative_begin_positive_end\<close> leaves the input at the second
  batch, with \<open>offset = 4\<close> (or at the first batch, with \<open>offset = 2\<close>, if a moved-from
  batch reports no rows), so \<open>begin\<close> is resolved against 4 (or 2) instead of 6, and the
  operator yields the rows 0 and 1. Every call of \<open>subslice\<close> on this input has
  \<open>0 \<le> begin \<le> end \<le> rows\<close>.
\<close>

theorem slice_negative_begin_positive_end_stops_early:
  "slice_operator True (Some (- 5)) (Some 2) [[0::nat, 1], [2, 3], [4, 5]] = Some [[0, 1]]
   \<and> slice_operator False (Some (- 5)) (Some 2) [[0::nat, 1], [2, 3], [4, 5]] = Some [[0, 1]]
   \<and> rows_between [[0::nat, 1], [2, 3], [4, 5]] (nat ((6 + (- 5)) mod 6)) (nat ((6 + 2) mod 6))
       = [1]"
  by (simp add: slice_operator_def negative_begin_positive_end_def rows_def subslice_def
    to_size_t_def rows_between_def Let_def)

section \<open>Construction of write and to\<close>

lemma join_or_fuse_as_specified: "constructed_as_specified p s (join_or_fuse p s)"
  by (simp add: constructed_as_specified_def join_or_fuse_def)

text \<open>
  C8. Whenever \<open>write FMT [to SINK]\<close> resolves to the printer \<open>p\<close> and the saver \<open>s\<close>, and
  whenever \<open>to SINK [write FMT]\<close> does, the construction fails with an invalid-argument error
  if \<open>s\<close> requires joining and \<open>p\<close> does not allow it, gives the single fused
  \<open>print_save_operator\<close> if \<open>s\<close> does not require joining, and else gives the pipeline of
  the two operators \<open>print_operator\<close> and \<open>save_operator\<close>, in this order.
\<close>

theorem write_to_construction:
  "(write_resolves reg parsed = Some (p, s)
      \<longrightarrow> constructed_as_specified p s (write_make_operator reg parsed))
   \<and> (to_resolves reg parsed = Some (p, s)
      \<longrightarrow> constructed_as_specified p s (to_make_operator reg parsed))"
proof (intro conjI impI)
  assume "write_resolves reg parsed = Some (p, s)"
  then show "constructed_as_specified p s (write_make_operator reg parsed)"
    by (auto simp: write_resolves_def write_make_operator_def join_or_fuse_as_specified
        split: option.splits prod.splits)
next
  assume "to_resolves reg parsed = Some (p, s)"
  then show "constructed_as_specified p s (to_make_operator reg parsed)"
    by (auto simp: to_resolves_def to_make_operator_def join_or_fuse_as_specified
        split: option.splits prod.splits)
qed

theorem write_to_construction_witness:
  "constructed_as_specified
     \<lparr>printer_name = ''json'', printer_allows_joining = True, make_default_saver = Some ''stdout''\<rparr>
     \<lparr>saver_name = ''stdout'', saver_requires_joining = True, make_default_printer = Some ''json''\<rparr>
     (write_make_operator
        \<lparr>find_printer = (\<lambda>n. if n = ''json'' then Some \<lparr>printer_name = ''json'',
             printer_allows_joining = True, make_default_saver = Some ''stdout''\<rparr> else None),
         find_saver = (\<lambda>n. if n = ''stdout'' then Some \<lparr>saver_name = ''stdout'',
             saver_requires_joining = True, make_default_printer = Some ''json''\<rparr> else None)\<rparr>
        (Some (''json'', None)))
   \<and> constructed_as_specified
     \<lparr>printer_name = ''json'', printer_allows_joining = True, make_default_saver = Some ''stdout''\<rparr>
     \<lparr>saver_name = ''stdout'', saver_requires_joining = True, make_default_printer = Some ''json''\<rparr>
     (to_make_operator
        \<lparr>find_printer = (\<lambda>n. if n = ''json'' then Some \<lparr>printer_name = ''json'',
             printer_allows_joining = True, make_default_saver = Some ''stdout''\<rparr> else None),
         find_saver = (\<lambda>n. if n = ''stdout'' then Some \<lparr>saver_name = ''stdout'',
             saver_requires_joining = True, make_default_printer = Some ''json''\<rparr> else None)\<rparr>
        (Some (''stdout'', Some ''json'')))"
proof -
  let ?p = "\<lparr>printer_name = ''json'', printer_allows_joining = True, make_default_saver = Some ''stdout''\<rparr>"
  let ?s = "\<lparr>saver_name = ''stdout'', saver_requires_joining = True, make_default_printer = Some ''json''\<rparr>"
  let ?reg = "\<lparr>find_printer = (\<lambda>n. if n = ''json'' then Some ?p else None),
         find_saver = (\<lambda>n. if n = ''stdout'' then Some ?s else None)\<rparr>"
  have w: "write_resolves ?reg (Some (''json'', None)) = Some (?p, ?s)"
    by (simp add: write_resolves_def)
  have t: "to_resolves ?reg (Some (''stdout'', Some ''json'')) = Some (?p, ?s)"
    by (simp add: to_resolves_def)
  show ?thesis
    using write_to_construction [of ?reg "Some (''json'', None)" ?p ?s]
      write_to_construction [of ?reg "Some (''stdout'', Some ''json'')" ?p ?s] w t
    by blast
qed

section \<open>Abort\<close>

declare ctrl_abort.simps [simp del] diagnostics_emit.simps [simp del]

lemma ctrl_abort_silent:
  "code err = Ec_silent \<Longrightarrow>
   ctrl_abort err st
     = (if abort st = None then st\<lparr>abort := Some (Error Ec_silent (to_string err))\<rparr> else st)"
  by (subst ctrl_abort.simps) simp

lemma diagnostics_emit_unfold:
  "diagnostics_emit d st =
     (if severity d = Severity_error \<and> \<not> has_seen_error st then
        (if abort st = None then
           st\<lparr>outbox := outbox st @ [Send_diagnostic d], has_seen_error := True,
              abort := Some (Error Ec_silent (to_string (Error Ec_silent [])))\<rparr>
         else st\<lparr>outbox := outbox st @ [Send_diagnostic d], has_seen_error := True\<rparr>)
      else st\<lparr>outbox := outbox st @ [Send_diagnostic d]\<rparr>)"
  by (subst diagnostics_emit.simps) (simp add: ctrl_abort_silent perform_def Let_def)

lemma ctrl_abort_loud:
  "code err \<noteq> Ec_silent \<Longrightarrow>
   outbox (ctrl_abort err st) = outbox st @ [error_diagnostic_of err (op_name st)]
   \<and> op_name (ctrl_abort err st) = op_name st
   \<and> abort (ctrl_abort err st) \<noteq> None
   \<and> (abort st \<noteq> None \<longrightarrow> abort (ctrl_abort err st) = abort st)"
  by (subst ctrl_abort.simps)+
    (auto simp add: diagnostics_emit_unfold Let_def error_diagnostic_of_def)

text \<open>
  C9, as the code has it. Two calls of \<open>abort\<close> with errors that are not \<open>silent\<close> send
  two diagnostics of severity \<open>error\<close>, one for each call and in the order of the calls; the
  abort latch is set after the first call and the second call leaves it as it is. A call
  with a \<open>silent\<close> error sends nothing, sets the latch if it is unset and leaves it as it is
  otherwise.
\<close>

theorem abort_twice:
  assumes "code e1 \<noteq> Ec_silent" and "code e2 \<noteq> Ec_silent"
  shows "error_diagnostics (ctrl_abort e2 (ctrl_abort e1 st))
           = error_diagnostics st
             @ [error_diagnostic_of e1 (op_name st), error_diagnostic_of e2 (op_name st)]
     \<and> abort (ctrl_abort e1 st) \<noteq> None
     \<and> abort (ctrl_abort e2 (ctrl_abort e1 st)) = abort (ctrl_abort e1 st)
     \<and> outbox (ctrl_abort (Error Ec_silent m) st) = outbox st
     \<and> abort (ctrl_abort (Error Ec_silent m) st)
         = (case abort st of None \<Rightarrow> Some (Error Ec_silent (to_string (Error Ec_silent m)))
            | Some err \<Rightarrow> Some err)"
proof -
  note a1 = ctrl_abort_loud [OF assms(1), of st]
  note a2 = ctrl_abort_loud [OF assms(2), of "ctrl_abort e1 st"]
  have "outbox (ctrl_abort e2 (ctrl_abort e1 st))
      = outbox st @ [error_diagnostic_of e1 (op_name st), error_diagnostic_of e2 (op_name st)]"
    using a1 a2 by simp
  then have d: "error_diagnostics (ctrl_abort e2 (ctrl_abort e1 st))
           = error_diagnostics st
             @ [error_diagnostic_of e1 (op_name st), error_diagnostic_of e2 (op_name st)]"
    by (simp add: error_diagnostics_def error_diagnostic_of_def)
  have s: "outbox (ctrl_abort (Error Ec_silent m) st) = outbox st
     \<and> abort (ctrl_abort (Error Ec_silent m) st)
         = (case abort st of None \<Rightarrow> Some (Error Ec_silent (to_string (Error Ec_silent m)))
            | Some err \<Rightarrow> Some err)"
    by (auto simp: ctrl_abort_silent split: option.splits)
  show ?thesis using d a1 a2 s by simp
qed

theorem abort_twice_witness:
  "length (error_diagnostics
     (ctrl_abort (Error Ec_unspecified ''b'')
        (ctrl_abort (Error Ec_logic_error ''a'') (spawned ''op'' :: (nat, nat) exec_node_state))))
     = length (error_diagnostics (spawned ''op'' :: (nat, nat) exec_node_state)) + 2
   \<and> abort (ctrl_abort (Error Ec_unspecified ''b'')
        (ctrl_abort (Error Ec_logic_error ''a'') (spawned ''op'' :: (nat, nat) exec_node_state)))
     = abort (ctrl_abort (Error Ec_logic_error ''a'') (spawned ''op'' :: (nat, nat) exec_node_state))"
  using abort_twice [of "Error Ec_logic_error ''a''" "Error Ec_unspecified ''b''"
      "spawned ''op'' :: (nat, nat) exec_node_state" "[]"]
  by simp

text \<open>
  C9 as the specification states it fails: on a node that has handled nothing yet, two calls of
  \<open>abort\<close> with errors that are not \<open>silent\<close> send two error diagnostics, not one.
\<close>

theorem abort_twice_two_diagnostics:
  "length (error_diagnostics
     (ctrl_abort (Error Ec_unspecified ''b'')
        (ctrl_abort (Error Ec_logic_error ''a'') (spawned ''op'' :: (nat, nat) exec_node_state))))
     = 2"
  by (simp add: ctrl_abort_loud error_diagnostics_def spawned_def error_diagnostic_of_def)

section \<open>Push and pull\<close>

lemma u64_add_small: "a + b < 2 ^ 64 \<Longrightarrow> u64_add a b = a + b"
  by (simp add: u64_add_def)

lemma fold_u64_add:
  "a + total_size sz xs < 2 ^ 64
   \<Longrightarrow> fold (\<lambda>x acc. u64_add acc (sz x)) xs a = a + total_size sz xs"
proof (induction xs arbitrary: a)
  case Nil
  then show ?case by (simp add: total_size_def)
next
  case (Cons x xs)
  have "a + sz x < 2 ^ 64" using Cons.prems by (simp add: total_size_def)
  then have "u64_add a (sz x) = a + sz x" by (rule u64_add_small)
  then show ?case using Cons.IH [of "a + sz x"] Cons.prems by (simp add: total_size_def)
qed

lemma transform_reduce_size_total:
  "total_size sz xs < 2 ^ 64 \<Longrightarrow> transform_reduce_size sz xs = total_size sz xs"
  using fold_u64_add [of 0 sz xs] by (simp add: transform_reduce_size_def)

text \<open>
  C5. For a node with the input type \<open>it\<close>, whenever the buffered size plus the total size
  of the pushed elements is below \<open>2 ^ 64\<close> (no \<open>uint64_t\<close> sum wraps around): \<open>push\<close>
  answers with success exactly when the total is not zero and the buffered size plus the
  total is at most \<open>max_buffered\<close>; then the elements are appended to the inbound buffer in
  their order and the buffered size grows by the total; otherwise the answer is a
  \<open>logic_error\<close> and the inbound buffer and its size are as before.
\<close>

theorem push_accepts:
  assumes "inbound_buffer_size st + total_size (size_of it) input < 2 ^ 64"
  shows "(fst (push it input st) = Reply_now None
            \<longleftrightarrow> total_size (size_of it) input \<noteq> 0
                \<and> inbound_buffer_size st + total_size (size_of it) input \<le> max_buffered it)
     \<and> (fst (push it input st) = Reply_now None
            \<longrightarrow> inbound_buffer (snd (push it input st)) = inbound_buffer st @ input
              \<and> inbound_buffer_size (snd (push it input st))
                  = inbound_buffer_size st + total_size (size_of it) input)
     \<and> (fst (push it input st) \<noteq> Reply_now None
            \<longrightarrow> logic_error_reply (fst (push it input st))
              \<and> inbound_buffer (snd (push it input st)) = inbound_buffer st
              \<and> inbound_buffer_size (snd (push it input st)) = inbound_buffer_size st)"
proof -
  have t: "transform_reduce_size (size_of it) input = total_size (size_of it) input"
    using assms by (intro transform_reduce_size_total) simp
  have a: "u64_add (inbound_buffer_size st) (total_size (size_of it) input)
      = inbound_buffer_size st + total_size (size_of it) input"
    using assms by (rule u64_add_small)
  have s: "inbound_buffer_size (schedule_run st) = inbound_buffer_size st"
    "inbound_buffer (schedule_run st) = inbound_buffer st"
    by (simp_all add: schedule_run_def)
  show ?thesis
    by (simp add: push_def Let_def t a s logic_error_reply_def)
qed

theorem push_accepts_witness:
  "fst (push chunk_ptr_type [Some [1, 2, 3], Some [4]]
          (spawned ''save'' :: (chunk_ptr, unit) exec_node_state)) = Reply_now None
   \<and> inbound_buffer_size (snd (push chunk_ptr_type [Some [1, 2, 3], Some [4]]
          (spawned ''save'' :: (chunk_ptr, unit) exec_node_state))) = 4
   \<and> logic_error_reply (fst (push chunk_ptr_type [None]
          (spawned ''save'' :: (chunk_ptr, unit) exec_node_state)))"
  using push_accepts [of "spawned ''save'' :: (chunk_ptr, unit) exec_node_state" chunk_ptr_type
      "[Some [1, 2, 3], Some [4]]"]
    push_accepts [of "spawned ''save'' :: (chunk_ptr, unit) exec_node_state" chunk_ptr_type "[None]"]
  by (simp add: spawned_def chunk_ptr_type_def total_size_def size_chunk_ptr_def Mi_def)

text \<open>
  C4. When \<open>reject_demand\<close> is set, the handler of a pull request sends no response when
  it returns; all it does is to register the delayed action that delivers success to the
  request's response promise after \<open>batch_timeout\<close>. It sends no push, stores no demand and
  changes nothing else of the state.
\<close>

theorem pull_while_rejecting:
  assumes "reject_demand st"
  shows "pull snk batch_sz timeout now response_promise st
     = (Reply_later,
        st\<lparr>outbox := outbox st @ [Run_delayed timeout (Deliver response_promise None)]\<rparr>)"
  using assms by (simp add: pull_def perform_def)

theorem pull_while_rejecting_witness:
  "pull 7 (Ki 64) max_batch_timeout 0 1
     ((spawned ''source'' :: (unit, chunk_ptr) exec_node_state)\<lparr>reject_demand := True\<rparr>)
   = (Reply_later,
      (spawned ''source'' :: (unit, chunk_ptr) exec_node_state)
        \<lparr>reject_demand := True,
         outbox := [Run_delayed max_batch_timeout (Deliver 1 None)]\<rparr>)"
  using pull_while_rejecting
    [of "(spawned ''source'' :: (unit, chunk_ptr) exec_node_state)\<lparr>reject_demand := True\<rparr>"
       7 "Ki 64" max_batch_timeout 0 1]
  by (simp add: spawned_def)

section \<open>The outbound buffer and max_buffered\<close>

lemma size_replicate: "size_table_slice (replicate n x) = n"
  by (simp add: size_table_slice_def rows_def)

text \<open>
  C1. A source node of events is started; the first batch its operator yields has
  \<open>254 Ki + 1\<close> rows. It is pulled from, and its scheduled run advances the generator:
  the outbound buffer is empty, so \<open>advance_generator\<close> buffers the batch, and
  \<open>outbound_buffer_size\<close> is \<open>254 Ki + 1\<close>, one more than \<open>max_buffered\<close>.
\<close>

theorem outbound_exceeds_max_buffered:
  "(case start None (Some table_slice_type) []
           (Generator ([], Some (replicate (Ki 254 + 1) (0::nat))))
           (spawned ''source'' :: (unit, nat table_slice) exec_node_state) of
      None \<Rightarrow> None
    | Some (r1, s1) \<Rightarrow>
        (case pull 7 (Ki 64) max_batch_timeout 0 1 s1 of
           (r2, s2) \<Rightarrow>
             map_option outbound_buffer_size
               (scheduled_action None (Some table_slice_type) 0 ([], None) s2)))
     = Some (Ki 254 + 1)
   \<and> max_buffered (table_slice_type :: nat table_slice element_type) = Ki 254"
  by (simp add: start_def spawned_def resume_generator_def pull_def schedule_run_def
      scheduled_action_def run_def deliver_batches_def advance_generator_def table_slice_type_def
      size_replicate u64_add_def Ki_def max_batch_timeout_def Let_def)

section \<open>Invariants of the execution node\<close>

lemma no_empty_element_simps [simp]:
  "no_empty_element sz []"
  "no_empty_element sz (x # xs) = (sz x > 0 \<and> no_empty_element sz xs)"
  "no_empty_element sz (xs @ ys) = (no_empty_element sz xs \<and> no_empty_element sz ys)"
  by (auto simp: no_empty_element_def)

lemma total_size_simps [simp]:
  "total_size sz [] = 0"
  "total_size sz (x # xs) = sz x + total_size sz xs"
  "total_size sz (xs @ ys) = total_size sz xs + total_size sz ys"
  by (simp_all add: total_size_def)

lemma split_loop_fst_total:
  assumes "\<And>x n. sz (fst (spl x n)) = min n (sz x)"
  shows "total_size sz (fst (split_loop sz spl passed xs n))
     = total_size sz passed + min n (total_size sz xs)"
proof (induction xs arbitrary: passed n)
  case Nil
  show ?case by simp
next
  case (Cons x xs)
  show ?case
    using Cons.IH [of "passed @ [x]" "n - sz x"] assms
    by (auto simp: case_prod_beta)
qed

lemma split_loop_snd_total:
  assumes "\<And>x n. sz (snd (spl x n)) = sz x - n"
  shows "total_size sz (snd (split_loop sz spl passed xs n)) = total_size sz xs - n"
proof (induction xs arbitrary: passed n)
  case Nil
  show ?case by simp
next
  case (Cons x xs)
  show ?case
    using Cons.IH [of "passed @ [x]" "n - sz x"] assms
    by (auto simp: case_prod_beta)
qed

lemma split_loop_snd_no_empty:
  assumes "\<And>x n. sz (snd (spl x n)) = sz x - n" and "no_empty_element sz xs"
  shows "no_empty_element sz (snd (split_loop sz spl passed xs n))"
  using assms(2)
proof (induction xs arbitrary: passed n)
  case Nil
  show ?case by simp
next
  case (Cons x xs)
  then show ?case
    using Cons.IH [of "passed @ [x]" "n - sz x"] assms(1)
    by (auto simp: case_prod_beta)
qed

lemma split_loop_fst_no_empty:
  assumes "\<And>x n. sz (fst (spl x n)) = min n (sz x)"
    and "no_empty_element sz xs" and "no_empty_element sz passed" and "n > 0"
  shows "no_empty_element sz (fst (split_loop sz spl passed xs n))"
  using assms(2-)
proof (induction xs arbitrary: passed n)
  case Nil
  then show ?case by simp
next
  case (Cons x xs)
  then show ?case
    using Cons.IH [of "passed @ [x]" "n - sz x"] assms(1)
    by (auto simp: case_prod_beta)
qed

lemma splits_by_table_slice: "splits_by table_slice_type split_table_slice"
  by (auto simp: splits_by_def table_slice_type_def split_table_slices_def split_table_slice_def
      size_table_slice_def rows_def fun_eq_iff)

lemma splits_by_chunk_ptr: "splits_by chunk_ptr_type split_chunk_ptr"
  by (auto simp: splits_by_def chunk_ptr_type_def split_chunk_ptrs_def
      split_chunk_ptr_size_fst split_chunk_ptr_size_snd fun_eq_iff)

lemma sound_table_slice_type: "sound_element_type table_slice_type"
  unfolding sound_element_type_def using splits_by_table_slice
  by (auto simp: table_slice_type_def Ki_def)

lemma sound_chunk_ptr_type: "sound_element_type chunk_ptr_type"
  unfolding sound_element_type_def using splits_by_chunk_ptr
  by (auto simp: chunk_ptr_type_def Mi_def)

lemma input_adapter_step:
  assumes "input_adapter it inner st = Some y"
  shows "adapter_step it st y"
proof (rule input_adapter.raw_induct [where P = "\<lambda>it inner st y. adapter_step it st y", OF _ assms])
  fix f :: "'a element_type \<Rightarrow> bool \<Rightarrow> ('a, 'b) exec_node_state
      \<Rightarrow> ('a adapter_token \<times> ('a, 'b) exec_node_state) option"
    and it inner st y
  assume IH: "\<And>a b c y. f a b c = Some y \<Longrightarrow> adapter_step a c y"
  assume body: "(if inner
      then case inbound_buffer st of [] \<Rightarrow> f it False st
           | next # rest \<Rightarrow>
               if size_of it next = 0 then None
               else Some
                     (Element next,
                      st\<lparr>inbound_buffer_size := u64_sub (inbound_buffer_size st) (size_of it next),
                           inbound_buffer := rest, stalled := False, adapter := At_inner\<rparr>)
      else if previous st \<noteq> None \<or> 0 < inbound_buffer_size st \<or> signaled_demand st
           then if inbound_buffer_size st = 0
                then if inbound_buffer st \<noteq> [] then None
                     else Some (Empty_token, st\<lparr>stalled := True, adapter := At_outer\<rparr>)
                else f it True st
           else Some (End_of_input, st\<lparr>stalled := False, adapter := Returned\<rparr>)) = Some y"
  show "adapter_step it st y"
  proof (cases inner)
    case True
    show ?thesis
    proof (cases "inbound_buffer st")
      case Nil
      with True body have "f it False st = Some y" by simp
      then show ?thesis by (rule IH)
    next
      case (Cons x rest)
      with True body show ?thesis
        by (auto simp: adapter_step_def split: if_splits)
    qed
  next
    case False
    show ?thesis
    proof (cases "previous st \<noteq> None \<or> 0 < inbound_buffer_size st \<or> signaled_demand st")
      case cond: True
      show ?thesis
      proof (cases "inbound_buffer_size st = 0")
        case True
        with False cond body show ?thesis
          by (auto simp: adapter_step_def split: if_splits)
      next
        case nz: False
        with False cond body have "f it True st = Some y" by simp
        then show ?thesis by (rule IH)
      qed
    next
      case nocond: False
      with False body show ?thesis
        by (auto simp: adapter_step_def split: if_splits)
    qed
  qed
qed

lemma adapter_resume_step:
  "adapter_resume it st = Some y \<Longrightarrow> adapter_step it st y"
  by (auto simp: adapter_resume_def split: adapter_pc.splits dest: input_adapter_step)
    (simp add: adapter_step_def)

lemma pushed_batches_append [simp]:
  "pushed_batches (xs @ ys) = pushed_batches xs @ pushed_batches ys"
  by (induction xs rule: pushed_batches.induct) simp_all

lemma adapter_step_frame:
  "adapter_step it st (tok, st') \<Longrightarrow>
     out_view st' = out_view st
     \<and> (no_empty_element (size_of it) (inbound_buffer st)
          \<longrightarrow> no_empty_element (size_of it) (inbound_buffer st'))
     \<and> (\<forall>x. tok = Element x \<longrightarrow> size_of it x > 0)"
  by (auto simp: adapter_step_def out_view_def)

lemma diagnostics_emit_frame:
  "out_view (diagnostics_emit d st) = out_view st
   \<and> inbound_buffer (diagnostics_emit d st) = inbound_buffer st"
  by (simp add: diagnostics_emit_unfold out_view_def)

lemma ctrl_abort_frame:
  "out_view (ctrl_abort err st) = out_view st
   \<and> inbound_buffer (ctrl_abort err st) = inbound_buffer st"
proof (cases "code err = Ec_silent")
  case True
  then show ?thesis by (simp add: ctrl_abort_silent out_view_def)
next
  case False
  show ?thesis
    by (subst ctrl_abort.simps)+
      (auto simp: Let_def diagnostics_emit_unfold out_view_def)
qed

lemma ctrl_warn_frame:
  "out_view (ctrl_warn err st) = out_view st
   \<and> inbound_buffer (ctrl_warn err st) = inbound_buffer st"
  by (simp add: ctrl_warn_def diagnostics_emit_frame)

lemma schedule_run_frame:
  "out_view (schedule_run st) = out_view st
   \<and> inbound_buffer (schedule_run st) = inbound_buffer st"
  by (simp add: schedule_run_def out_view_def)

lemma perform_actions_frame:
  "perform_actions inp as st = Some st' \<Longrightarrow>
     out_view st' = out_view st
     \<and> (\<forall>it. inp = Some it \<longrightarrow> no_empty_element (size_of it) (inbound_buffer st)
          \<longrightarrow> no_empty_element (size_of it) (inbound_buffer st'))
     \<and> (inp = None \<longrightarrow> inbound_buffer st' = inbound_buffer st)"
proof (induction inp as st rule: perform_actions.induct)
  case (1 inp st)
  then show ?case by simp
next
  case (2 inp as st)
  show ?case
  proof (cases inp)
    case None
    with 2 show ?thesis by simp
  next
    case (Some it)
    with 2(3) obtain tok st1 where r: "adapter_resume it st = Some (tok, st1)"
      and rest: "perform_actions inp as st1 = Some st'"
      by (auto split: option.splits)
    from adapter_step_frame [OF adapter_resume_step [OF r]]
    have f: "out_view st1 = out_view st"
      "no_empty_element (size_of it) (inbound_buffer st)
          \<longrightarrow> no_empty_element (size_of it) (inbound_buffer st1)" by auto
    from 2(2) [OF Some r refl rest] f Some show ?thesis by auto
  qed
next
  case (3 inp err as st)
  then show ?case using ctrl_abort_frame [of err st] by auto
next
  case (4 inp err as st)
  then show ?case using ctrl_warn_frame [of err st] by auto
qed

lemma invariant_cong:
  "out_view st' = out_view st \<Longrightarrow>
     buffer_invariant ot st' = buffer_invariant ot st \<and> demand_invariant st' = demand_invariant st"
  by (simp add: out_view_def buffer_invariant_def demand_invariant_def)

lemma perform_fields [simp]:
  "outbox (perform e st) = outbox st @ [e]"
  "outbound_buffer (perform e st) = outbound_buffer st"
  "outbound_buffer_size (perform e st) = outbound_buffer_size st"
  "current_demand (perform e st) = current_demand st"
  "reject_demand (perform e st) = reject_demand st"
  "instance_it (perform e st) = instance_it st"
  "inbound_buffer (perform e st) = inbound_buffer st"
  by (simp_all add: perform_def)

lemma schedule_run_fields [simp]:
  "outbox (schedule_run st) = outbox st"
  "outbound_buffer (schedule_run st) = outbound_buffer st"
  "outbound_buffer_size (schedule_run st) = outbound_buffer_size st"
  "current_demand (schedule_run st) = current_demand st"
  "reject_demand (schedule_run st) = reject_demand st"
  "instance_it (schedule_run st) = instance_it st"
  "inbound_buffer (schedule_run st) = inbound_buffer st"
  by (simp_all add: schedule_run_def)

lemma deliver_batches_invariant:
  assumes sound: "sound_element_type ot"
    and inv: "buffer_invariant ot st"
    and run: "deliver_batches ot now force st = Some st'"
  shows "buffer_invariant ot st'
     \<and> reject_demand st' = reject_demand st
     \<and> (current_demand st = None \<longrightarrow> current_demand st' = None)
     \<and> (force \<and> outbound_buffer_size st = 0 \<longrightarrow> current_demand st' = None)
     \<and> inbound_buffer st' = inbound_buffer st
     \<and> instance_it st' = instance_it st"
proof (cases "current_demand st")
  case None
  with run inv show ?thesis by (simp add: deliver_batches_def)
next
  case (Some d)
  show ?thesis
  proof (cases "ongoing d")
    case True
    with Some run have "st' = st" by (simp add: deliver_batches_def)
    with inv Some True show ?thesis by (auto simp: buffer_invariant_def)
  next
    case idle: False
    from Some idle run obtain it where it: "instance_it st = Some it"
      by (auto simp: deliver_batches_def split: option.splits)
    show ?thesis
    proof (cases "\<not> force \<and> ((it = None \<or> outbound_buffer_size st < batch_size d)
                                \<and> batch_timeout d > now)")
      case True
      with Some idle it run have "st' = st" by (simp add: deliver_batches_def)
      with inv Some True show ?thesis by auto
    next
      case deliver: False
      let ?capped = "min (outbound_buffer_size st) (batch_size d)"
      show ?thesis
      proof (cases "outbound_buffer_size st = 0 \<or> batch_size d = 0")
        case True
        with Some idle it deliver run
        have st': "st' = schedule_run ((perform (Deliver (rp d) None)
            (st\<lparr>current_demand := Some (d\<lparr>ongoing := True\<rparr>)\<rparr>))\<lparr>current_demand := None\<rparr>)"
          by (auto simp: deliver_batches_def Let_def split: if_splits)
        show ?thesis using inv unfolding st'
          by (simp add: buffer_invariant_def)
      next
        case pos: False
        from sound obtain spl where spl: "splits_by ot spl"
          by (auto simp: sound_element_type_def)
        let ?lhs = "fst (split_of ot (outbound_buffer st) ?capped)"
        from Some idle it deliver pos run
        have st': "st' = (perform (Send_push (sink d) ?lhs
              (force \<or> outbound_buffer_size st \<ge> max_buffered ot))
            (st\<lparr>current_demand := Some (d\<lparr>ongoing := True\<rparr>)\<rparr>))\<lparr>push_handlers := Some ?capped\<rparr>"
          by (auto simp: deliver_batches_def Let_def case_prod_beta min_def split: if_splits)
        have f1: "\<And>x n. size_of ot (fst (spl x n)) = min n (size_of ot x)"
          using spl by (simp add: splits_by_def)
        have eq: "split_of ot = split_loop (size_of ot) spl []"
          using spl by (simp add: splits_by_def)
        have total: "outbound_buffer_size st = total_size (size_of ot) (outbound_buffer st)"
          and ne: "no_empty_element (size_of ot) (outbound_buffer st)"
          and lt: "outbound_buffer_size st < 2 ^ 64"
          using inv by (simp_all add: buffer_invariant_def)
        have l1: "no_empty_element (size_of ot) ?lhs"
          unfolding eq using pos ne by (intro split_loop_fst_no_empty f1) (simp_all add: min_def)
        have l2: "total_size (size_of ot) ?lhs = ?capped"
          unfolding eq using split_loop_fst_total [of "size_of ot" spl "[]", OF f1] total by simp
        have l3: "0 < ?capped" "?capped < 2 ^ 64" "outbound_buffer_size st > 0"
          using pos lt by (auto simp: min_def)
        show ?thesis using inv l1 l2 l3 Some unfolding st'
          by (simp add: buffer_invariant_def)
      qed
    qed
  qed
qed


lemma resume_generator_frame:
  assumes "resume_generator inp r st = Some st'"
  shows "outbound_buffer st' = outbound_buffer st
     \<and> outbound_buffer_size st' = outbound_buffer_size st
     \<and> current_demand st' = current_demand st
     \<and> reject_demand st' = reject_demand st
     \<and> pushed_batches (outbox st') = pushed_batches (outbox st)
     \<and> instance_it st' = Some (snd r)
     \<and> (\<forall>it. inp = Some it \<longrightarrow> no_empty_element (size_of it) (inbound_buffer st)
          \<longrightarrow> no_empty_element (size_of it) (inbound_buffer st'))
     \<and> (inp = None \<longrightarrow> inbound_buffer st' = inbound_buffer st)"
proof -
  from assms obtain st0 where p: "perform_actions inp (fst r) st = Some st0"
    and st': "st' = st0\<lparr>instance_it := Some (snd r)\<rparr>"
    by (auto simp: resume_generator_def)
  from perform_actions_frame [OF p] show ?thesis unfolding st'
    by (simp add: out_view_def)
qed

lemma quit_fields [simp]:
  "outbound_buffer (quit reason st) = outbound_buffer st"
  "outbound_buffer_size (quit reason st) = outbound_buffer_size st"
  "current_demand (quit reason st) = current_demand st"
  "reject_demand (quit reason st) = reject_demand st"
  "instance_it (quit reason st) = instance_it st"
  "inbound_buffer (quit reason st) = inbound_buffer st"
  "pushed_batches (outbox (quit reason st)) = pushed_batches (outbox st)"
  by (simp_all add: quit_def)

lemma advance_generator_invariant:
  assumes sound: "max_buffered ot \<le> 2 ^ 63"
    and res: "sound_resumption (Some ot) r"
    and inv: "buffer_invariant ot st"
    and adv: "advance_generator inp (Some ot) r st = Some (b, st')"
  shows "buffer_invariant ot st'
     \<and> reject_demand st' = reject_demand st
     \<and> current_demand st' = current_demand st"
proof -
  from adv obtain nxt where nxt: "instance_it st = Some (Some nxt)"
    by (auto simp: advance_generator_def split: option.splits)
  show ?thesis
  proof (cases "outbound_buffer_size st \<ge> max_buffered ot")
    case True
    with nxt adv have "st' = st" by (simp add: advance_generator_def)
    with inv show ?thesis by simp
  next
    case False
    with nxt adv obtain st1 where r: "resume_generator inp r st = Some st1"
      by (auto simp: advance_generator_def split: option.splits)
    from resume_generator_frame [OF r]
    have f: "outbound_buffer st1 = outbound_buffer st"
      "outbound_buffer_size st1 = outbound_buffer_size st"
      "current_demand st1 = current_demand st"
      "reject_demand st1 = reject_demand st"
      "pushed_batches (outbox st1) = pushed_batches (outbox st)"
      "instance_it st1 = Some (snd r)"
      by simp_all
    have small: "size_of ot nxt < 2 ^ 63" using inv nxt by (simp add: buffer_invariant_def)
    have lt63: "outbound_buffer_size st < 2 ^ 63" using False sound by simp
    have nowrap: "u64_add (outbound_buffer_size st) (size_of ot nxt)
        = outbound_buffer_size st + size_of ot nxt"
      using small lt63 by (intro u64_add_small) simp
    have yielded: "(case snd r of Some x \<Rightarrow> size_of ot x < 2 ^ 63 | None \<Rightarrow> True)"
      using res by (simp add: sound_resumption_def)
    have inv1: "buffer_invariant ot st1"
      using inv f yielded
      by (auto simp: buffer_invariant_def)
    let ?st2 = "if size_of ot nxt > 0 then
                  st1\<lparr>outbound_buffer_size := u64_add (outbound_buffer_size st1) (size_of ot nxt),
                      outbound_buffer := outbound_buffer st1 @ [nxt]\<rparr>
                else st1"
    have inv2: "buffer_invariant ot ?st2 \<and> reject_demand ?st2 = reject_demand st
        \<and> current_demand ?st2 = current_demand st"
    proof (cases "size_of ot nxt > 0")
      case True
      have sum: "outbound_buffer_size st + size_of ot nxt < 2 ^ 64"
        using small lt63 by simp
      have tot: "outbound_buffer_size st = total_size (size_of ot) (outbound_buffer st)"
        using inv by (simp add: buffer_invariant_def)
      show ?thesis
        using True inv1 f(1-4) nowrap sum tot
        by (auto simp: buffer_invariant_def)
    next
      case False
      then show ?thesis using inv1 f by simp
    qed
    from False nxt adv r have "st' = ?st2 \<or> st' = quit (abort ?st2) ?st2"
      by (auto simp: advance_generator_def Let_def split: if_splits)
    then show ?thesis
    proof
      assume "st' = ?st2"
      with inv2 show ?thesis by simp
    next
      assume q: "st' = quit (abort ?st2) ?st2"
      have "out_view (quit (abort ?st2) ?st2) = out_view ?st2"
        by (simp add: out_view_def)
      from invariant_cong [OF this, of ot] inv2 show ?thesis unfolding q by simp
    qed
  qed
qed

lemma advance_generator_inbound:
  assumes "advance_generator inp outp r st = Some (b, st')"
    and "inp = Some it" and "no_empty_element (size_of it) (inbound_buffer st)"
  shows "no_empty_element (size_of it) (inbound_buffer st')"
proof -
  from assms(1) have "st' = st \<or> (\<exists>st1. resume_generator inp r st = Some st1
      \<and> inbound_buffer st' = inbound_buffer st1)"
    by (auto simp: advance_generator_def Let_def split: option.splits if_splits)
  then show ?thesis
    using assms(2,3) resume_generator_frame by fastforce
qed


lemma request_more_input_frame:
  "request_more_input it st = Some st' \<Longrightarrow>
     out_view st' = out_view st \<and> inbound_buffer st' = inbound_buffer st"
  by (auto simp: request_more_input_def out_view_def Let_def perform_def
      split: if_splits option.splits)

lemma run_advancing:
  assumes "instance_it st = Some (Some x)" and "run inp outp now r st = Some st'"
  shows "\<exists>st1 st2 st3 b.
      (case outp of Some ot \<Rightarrow> deliver_batches ot now False st | None \<Rightarrow> Some st) = Some st1
      \<and> (case inp of Some it \<Rightarrow> request_more_input it st1 | None \<Rightarrow> Some st1) = Some st2
      \<and> advance_generator inp outp r st2 = Some (b, st3)
      \<and> (st' = st3 \<or> st' = schedule_run st3)"
  using assms
  by (simp add: run_def Let_def split: option.splits prod.splits if_splits)

lemma run_at_end:
  assumes "instance_it st = Some None" and "run inp (Some ot) now r st = Some st'"
  shows "\<exists>st1. out_view st1 = out_view st \<and> inbound_buffer st1 = inbound_buffer st
      \<and> ((current_demand st1 \<noteq> None \<or> outbound_buffer_size st1 > 0)
            \<and> (\<exists>st3. deliver_batches ot now True (at_end_prepared st1) = Some st3
                  \<and> st' = schedule_run st3)
          \<or> (current_demand st1 = None \<and> outbound_buffer_size st1 = 0
               \<and> st' = quit None st1))"
proof -
  let ?st1 = "case (inp, previous st) of
                (Some _, Some prev) \<Rightarrow> perform (Send_exit prev) st
              | _ \<Rightarrow> st"
  have v: "out_view ?st1 = out_view st \<and> inbound_buffer ?st1 = inbound_buffer st"
    by (simp add: out_view_def split: option.splits)
  from assms have "((current_demand ?st1 \<noteq> None \<or> outbound_buffer_size ?st1 > 0)
            \<and> (\<exists>st3. deliver_batches ot now True (at_end_prepared ?st1) = Some st3
                  \<and> st' = schedule_run st3)
          \<or> (current_demand ?st1 = None \<and> outbound_buffer_size ?st1 = 0
               \<and> st' = quit None ?st1))"
    by (auto simp: run_def Let_def at_end_prepared_def split: if_splits)
  with v show ?thesis by blast
qed

lemma run_invariant:
  assumes sound: "sound_element_type ot"
    and res: "sound_resumption (Some ot) r"
    and inv: "outbound_invariant ot st"
    and run: "run inp (Some ot) now r st = Some st'"
  shows "outbound_invariant ot st'"
proof -
  from run obtain cur where cur: "instance_it st = Some cur"
    by (auto simp: run_def split: option.splits)
  show ?thesis
  proof (cases cur)
    case None
    from run_at_end [OF cur [unfolded None] run] obtain st1 where
      v: "out_view st1 = out_view st"
      and d: "(current_demand st1 \<noteq> None \<or> outbound_buffer_size st1 > 0)
            \<and> (\<exists>st3. deliver_batches ot now True (at_end_prepared st1) = Some st3
                  \<and> st' = schedule_run st3)
          \<or> (current_demand st1 = None \<and> outbound_buffer_size st1 = 0
               \<and> st' = quit None st1)"
      by blast
    from invariant_cong [OF v, of ot] inv
    have i1: "buffer_invariant ot st1" "demand_invariant st1"
      by (simp_all add: outbound_invariant_def)
    from d show ?thesis
    proof
      assume "(current_demand st1 \<noteq> None \<or> outbound_buffer_size st1 > 0)
            \<and> (\<exists>st3. deliver_batches ot now True (at_end_prepared st1) = Some st3
                  \<and> st' = schedule_run st3)"
      then obtain st3 where
        del: "deliver_batches ot now True (at_end_prepared st1) = Some st3"
        and st': "st' = schedule_run st3" by blast
      have bi: "buffer_invariant ot (at_end_prepared st1)"
        using i1(1) by (auto simp: at_end_prepared_def buffer_invariant_def)
      note k = deliver_batches_invariant [OF sound bi del]
      have "demand_invariant st3"
      proof (cases "current_demand st1 \<noteq> None \<and> outbound_buffer_size st1 = 0")
        case True
        then have "outbound_buffer_size (at_end_prepared st1) = 0"
          by (simp add: at_end_prepared_def)
        with k show ?thesis by (simp add: demand_invariant_def)
      next
        case False
        then have "at_end_prepared st1 = st1" by (auto simp: at_end_prepared_def)
        with k i1(2) show ?thesis by (auto simp: demand_invariant_def)
      qed
      moreover have "out_view st' = out_view st3" unfolding st' by (simp add: out_view_def)
      ultimately show ?thesis using k invariant_cong [of st' st3 ot]
        by (simp add: outbound_invariant_def)
    next
      assume "current_demand st1 = None \<and> outbound_buffer_size st1 = 0 \<and> st' = quit None st1"
      then have "out_view st' = out_view st1" by (simp add: out_view_def)
      from invariant_cong [OF this, of ot] i1 show ?thesis
        by (simp add: outbound_invariant_def)
    qed
  next
    case (Some x)
    from run_advancing [OF cur [unfolded Some] run] obtain st1 st2 st3 b where
      del: "deliver_batches ot now False st = Some st1"
      and req: "(case inp of Some it \<Rightarrow> request_more_input it st1 | None \<Rightarrow> Some st1) = Some st2"
      and adv: "advance_generator inp (Some ot) r st2 = Some (b, st3)"
      and fin: "st' = st3 \<or> st' = schedule_run st3"
      by auto
    from inv have i0: "buffer_invariant ot st" "demand_invariant st"
      by (simp_all add: outbound_invariant_def)
    note k = deliver_batches_invariant [OF sound i0(1) del]
    have i1: "buffer_invariant ot st1" "demand_invariant st1"
      using k i0(2) by (auto simp: demand_invariant_def)
    have "out_view st2 = out_view st1"
      using req request_more_input_frame by (cases inp) auto
    from invariant_cong [OF this, of ot] i1
    have i2: "buffer_invariant ot st2" "demand_invariant st2" by simp_all
    from sound have mb: "max_buffered ot \<le> 2 ^ 63" by (simp add: sound_element_type_def)
    note a = advance_generator_invariant [OF mb res i2(1) adv]
    have i3: "buffer_invariant ot st3" "demand_invariant st3"
      using a i2(2) by (auto simp: demand_invariant_def)
    have "out_view st' = out_view st3" using fin by (auto simp: out_view_def)
    from invariant_cong [OF this, of ot] i3 show ?thesis
      by (simp add: outbound_invariant_def)
  qed
qed

lemma spawned_invariant: "outbound_invariant ot (spawned name)"
  by (simp add: outbound_invariant_def demand_invariant_def buffer_invariant_def spawned_def)

lemma pull_invariant:
  assumes "outbound_invariant ot st" and "pull snk batch_sz timeout now response_promise st = (r, st')"
  shows "outbound_invariant ot st'"
  using assms
  by (auto simp: pull_def Let_def outbound_invariant_def demand_invariant_def
      buffer_invariant_def split: if_splits)

lemma push_frame:
  "push it input st = (r, st') \<Longrightarrow> out_view st' = out_view st"
  by (auto simp: push_def Let_def out_view_def split: if_splits)

lemma push_inbound:
  assumes "push it input st = (r, st')" and "no_empty_element (size_of it) input"
    and "no_empty_element (size_of it) (inbound_buffer st)"
  shows "no_empty_element (size_of it) (inbound_buffer st')"
  using assms by (auto simp: push_def Let_def split: if_splits)

lemma start_frame:
  assumes "start inp outp prev_chain instantiate st = Some (r, st')"
  shows "outbound_buffer st' = outbound_buffer st
     \<and> outbound_buffer_size st' = outbound_buffer_size st
     \<and> current_demand st' = current_demand st
     \<and> reject_demand st' = reject_demand st
     \<and> pushed_batches (outbox st') = pushed_batches (outbox st)
     \<and> (instance_it st' = instance_it st
          \<or> (\<exists>res. instantiate = Generator res \<and> instance_it st' = Some (snd res)))
     \<and> (\<forall>it. inp = Some it \<longrightarrow> no_empty_element (size_of it) (inbound_buffer st)
          \<longrightarrow> no_empty_element (size_of it) (inbound_buffer st'))"
proof -
  let ?st1 = "if inp \<noteq> None
              then perform (Monitor (last prev_chain)) (st\<lparr>previous := Some (last prev_chain)\<rparr>)
              else st"
  have v1: "outbound_buffer ?st1 = outbound_buffer st"
    "outbound_buffer_size ?st1 = outbound_buffer_size st"
    "current_demand ?st1 = current_demand st"
    "reject_demand ?st1 = reject_demand st"
    "pushed_batches (outbox ?st1) = pushed_batches (outbox st)"
    "instance_it ?st1 = instance_it st"
    "inbound_buffer ?st1 = inbound_buffer st"
    by simp_all
  from assms have "st' = st \<or> st' = ?st1
      \<or> (\<exists>res st2. instantiate = Generator res \<and> resume_generator inp res ?st1 = Some st2
            \<and> (st' = st2 \<or> (\<exists>prev rest. st' = perform (Send_start prev rest) st2)))"
    by (cases instantiate)
      (auto simp: start_def Let_def split: if_splits option.splits)
  then consider "st' = st" | "st' = ?st1"
    | res st2 where "instantiate = Generator res" "resume_generator inp res ?st1 = Some st2"
        "st' = st2 \<or> (\<exists>prev rest. st' = perform (Send_start prev rest) st2)"
    by blast
  then show ?thesis
  proof cases
    case 1
    then show ?thesis by simp
  next
    case 2
    then show ?thesis using v1 by simp
  next
    case 3
    from resume_generator_frame [OF 3(2)] 3(1,3) v1 show ?thesis by auto
  qed
qed

lemma start_invariant:
  assumes "start inp (Some ot) prev_chain instantiate st = Some (r, st')"
    and "sound_instantiation (Some ot) instantiate" and "outbound_invariant ot st"
  shows "outbound_invariant ot st'"
proof -
  note f = start_frame [OF assms(1)]
  have "\<forall>x. instance_it st' = Some (Some x) \<longrightarrow> size_of ot x < 2 ^ 63"
    using f assms(2,3)
    by (auto simp: sound_instantiation_def sound_resumption_def outbound_invariant_def
        buffer_invariant_def)
  then show ?thesis using f assms(3)
    by (auto simp: outbound_invariant_def buffer_invariant_def demand_invariant_def)
qed

lemma push_succeeded_invariant:
  assumes sound: "sound_element_type ot" and inv: "outbound_invariant ot st"
    and ok: "push_succeeded ot capped_demand st = Some st'"
  shows "outbound_invariant ot st' \<and> inbound_buffer st' = inbound_buffer st"
proof -
  from sound obtain spl where spl: "splits_by ot spl"
    by (auto simp: sound_element_type_def)
  have f2: "\<And>x n. size_of ot (snd (spl x n)) = size_of ot x - n"
    using spl by (simp add: splits_by_def)
  have eq: "split_of ot = split_loop (size_of ot) spl []"
    using spl by (simp add: splits_by_def)
  let ?rhs = "snd (split_of ot (outbound_buffer st) capped_demand)"
  from inv have total: "outbound_buffer_size st = total_size (size_of ot) (outbound_buffer st)"
    and ne: "no_empty_element (size_of ot) (outbound_buffer st)"
    and lt: "outbound_buffer_size st < 2 ^ 64"
    by (simp_all add: outbound_invariant_def buffer_invariant_def)
  have r1: "no_empty_element (size_of ot) ?rhs"
    unfolding eq using ne by (intro split_loop_snd_no_empty f2)
  have r2: "total_size (size_of ot) ?rhs < 2 ^ 64"
    unfolding eq using split_loop_snd_total [of "size_of ot" spl "[]", OF f2] total lt by simp
  have r3: "transform_reduce_size (size_of ot) ?rhs = total_size (size_of ot) ?rhs"
    using r2 by (rule transform_reduce_size_total)
  from ok obtain d where d: "current_demand st = Some d"
    by (auto simp: push_succeeded_def Let_def case_prod_beta split: option.splits)
  from ok d have st': "st' = schedule_run
               ((perform (Deliver (rp d) None)
                   (st\<lparr>outbound_total := u64_add (outbound_total st) capped_demand,
                        num_outbound_batches := u64_add (num_outbound_batches st)
                          (length (fst (split_of ot (outbound_buffer st) capped_demand))),
                        outbound_buffer := ?rhs,
                        outbound_buffer_size := transform_reduce_size (size_of ot) ?rhs\<rparr>))
                  \<lparr>current_demand := None, push_handlers := None\<rparr>)"
    by (simp add: push_succeeded_def Let_def case_prod_beta)
  show ?thesis using inv r1 r2 r3 unfolding st'
    by (simp add: outbound_invariant_def buffer_invariant_def demand_invariant_def)
qed

lemma push_failed_invariant:
  assumes inv: "outbound_invariant ot st" and ok: "push_failed err st = Some st'"
  shows "outbound_invariant ot st' \<and> inbound_buffer st' = inbound_buffer st"
  using assms
  by (auto simp: push_failed_def outbound_invariant_def buffer_invariant_def
      demand_invariant_def split: option.splits)

lemma diagnostics_emit_fields [simp]:
  "outbound_buffer (diagnostics_emit d st) = outbound_buffer st"
  "outbound_buffer_size (diagnostics_emit d st) = outbound_buffer_size st"
  "current_demand (diagnostics_emit d st) = current_demand st"
  "reject_demand (diagnostics_emit d st) = reject_demand st"
  "instance_it (diagnostics_emit d st) = instance_it st"
  "pushed_batches (outbox (diagnostics_emit d st)) = pushed_batches (outbox st)"
  "inbound_buffer (diagnostics_emit d st) = inbound_buffer st"
  using diagnostics_emit_frame [of d st] by (simp_all add: out_view_def)

lemma ctrl_abort_fields [simp]:
  "outbound_buffer (ctrl_abort err st) = outbound_buffer st"
  "outbound_buffer_size (ctrl_abort err st) = outbound_buffer_size st"
  "current_demand (ctrl_abort err st) = current_demand st"
  "reject_demand (ctrl_abort err st) = reject_demand st"
  "instance_it (ctrl_abort err st) = instance_it st"
  "pushed_batches (outbox (ctrl_abort err st)) = pushed_batches (outbox st)"
  "inbound_buffer (ctrl_abort err st) = inbound_buffer st"
  using ctrl_abort_frame [of err st] by (simp_all add: out_view_def)

lemma handlers_frame:
  "out_view (pull_succeeded st) = out_view st"
  "inbound_buffer (pull_succeeded st) = inbound_buffer st"
  "out_view (pull_failed err st) = out_view st"
  "inbound_buffer (pull_failed err st) = inbound_buffer st"
  "out_view (down_handler source reason st) = out_view st"
  "inbound_buffer (down_handler source reason st) = inbound_buffer st"
  "out_view (start_succeeded response_promise st) = out_view st"
  "inbound_buffer (start_succeeded response_promise st) = inbound_buffer st"
  "out_view (start_failed response_promise err st) = out_view st"
  "inbound_buffer (start_failed response_promise err st) = inbound_buffer st"
  by (simp_all add: pull_succeeded_def pull_failed_def down_handler_def start_succeeded_def
      start_failed_def out_view_def Let_def split: option.splits)

lemma outbound_invariant_cong:
  "out_view st' = out_view st \<Longrightarrow> outbound_invariant ot st \<Longrightarrow> outbound_invariant ot st'"
  using invariant_cong [of st' st ot] by (simp add: outbound_invariant_def)

lemma reachable_outbound_invariant:
  assumes "reachable inp (Some ot) accepts name st" and sound: "sound_element_type ot"
  shows "outbound_invariant ot st"
  using assms(1)
proof (induction rule: reachable.induct)
  case at_spawn
  show ?case by (rule spawned_invariant)
next
  case (on_start st instantiate prev_chain r st')
  then show ?case using start_invariant by blast
next
  case (on_start_response st response_promise)
  then show ?case by (intro outbound_invariant_cong [OF handlers_frame(7)])
next
  case (on_start_error st response_promise err)
  then show ?case by (intro outbound_invariant_cong [OF handlers_frame(9)])
next
  case (on_push st it input r st')
  then show ?case using outbound_invariant_cong [OF push_frame] by blast
next
  case (on_pull st ot' snk batch_sz timeout now response_promise r st')
  then show ?case using pull_invariant by blast
next
  case (on_scheduled_action st r now st')
  from on_scheduled_action(4) have rs: "run_scheduled st"
    and run: "run inp (Some ot) now r (st\<lparr>run_scheduled := False\<rparr>) = Some st'"
    by (auto simp: scheduled_action_def split: if_splits)
  have "out_view (st\<lparr>run_scheduled := False\<rparr>) = out_view st" by (simp add: out_view_def)
  from outbound_invariant_cong [OF this on_scheduled_action.IH]
  have "outbound_invariant ot (st\<lparr>run_scheduled := False\<rparr>)" .
  from run_invariant [OF sound on_scheduled_action(3) this run] show ?case .
next
  case (on_push_response st ot' capped_demand st')
  then show ?case using push_succeeded_invariant [OF sound] by auto
next
  case (on_push_error st ot' capped_demand err st')
  then show ?case using push_failed_invariant by blast
next
  case (on_pull_response st it)
  then show ?case by (intro outbound_invariant_cong [OF handlers_frame(1)])
next
  case (on_pull_error st it err)
  then show ?case by (intro outbound_invariant_cong [OF handlers_frame(3)])
next
  case (on_down st it source reason)
  then show ?case by (intro outbound_invariant_cong [OF handlers_frame(5)])
qed

lemma deliver_batches_inbound:
  "deliver_batches ot now force st = Some st' \<Longrightarrow> inbound_buffer st' = inbound_buffer st"
  by (auto simp: deliver_batches_def Let_def case_prod_beta split: option.splits if_splits)

lemma run_inbound:
  assumes run: "run (Some it) outp now r st = Some st'"
    and ne: "no_empty_element (size_of it) (inbound_buffer st)"
  shows "no_empty_element (size_of it) (inbound_buffer st')"
proof -
  from run obtain cur where cur: "instance_it st = Some cur"
    by (auto simp: run_def split: option.splits)
  show ?thesis
  proof (cases cur)
    case None
    with cur run have "inbound_buffer st' = inbound_buffer st"
      by (auto simp: run_def Let_def quit_def split: option.splits if_splits
          dest!: deliver_batches_inbound)
    with ne show ?thesis by simp
  next
    case (Some x)
    from run_advancing [OF cur [unfolded Some] run] obtain st1 st2 st3 b where
      del: "(case outp of Some ot \<Rightarrow> deliver_batches ot now False st | None \<Rightarrow> Some st) = Some st1"
      and req: "request_more_input it st1 = Some st2"
      and adv: "advance_generator (Some it) outp r st2 = Some (b, st3)"
      and fin: "st' = st3 \<or> st' = schedule_run st3"
      by auto
    have "inbound_buffer st1 = inbound_buffer st"
      using del deliver_batches_inbound by (cases outp) auto
    moreover have "inbound_buffer st2 = inbound_buffer st1"
      using request_more_input_frame [OF req] by simp
    ultimately have "no_empty_element (size_of it) (inbound_buffer st2)" using ne by simp
    from advance_generator_inbound [OF adv refl this] fin show ?thesis by auto
  qed
qed

lemma reachable_inbound:
  assumes "reachable (Some it) outp accepts name st"
    and linked: "\<And>input. accepts input \<Longrightarrow> no_empty_element (size_of it) input"
  shows "no_empty_element (size_of it) (inbound_buffer st)"
  using assms(1)
proof (induction rule: reachable.induct)
  case at_spawn
  show ?case by (simp add: spawned_def)
next
  case (on_start st instantiate prev_chain r st')
  then show ?case using start_frame by blast
next
  case (on_push st it' input r st')
  then show ?case using push_inbound linked by blast
next
  case (on_pull st ot snk batch_sz timeout now response_promise r st')
  then show ?case by (auto simp: pull_def Let_def split: if_splits)
next
  case (on_scheduled_action st r now st')
  from on_scheduled_action(4)
  have run: "run (Some it) outp now r (st\<lparr>run_scheduled := False\<rparr>) = Some st'"
    by (auto simp: scheduled_action_def split: if_splits)
  from run_inbound [OF run] on_scheduled_action.IH show ?case by simp
next
  case (on_push_response st ot capped_demand st')
  then show ?case
    by (auto simp: push_succeeded_def Let_def case_prod_beta split: option.splits)
next
  case (on_push_error st ot capped_demand err st')
  then show ?case by (auto simp: push_failed_def split: option.splits)
qed (simp_all add: handlers_frame)

lemma push_of_pushed_batch:
  assumes "no_empty_element (size_of ot) batch" and "0 < total_size (size_of ot) batch"
    and "total_size (size_of ot) batch < 2 ^ 64"
  shows "fst (push ot batch str) \<noteq> Reply_now (Some (Error Ec_logic_error ''received empty batch''))"
proof -
  have "transform_reduce_size (size_of ot) batch = total_size (size_of ot) batch"
    using assms(3) by (rule transform_reduce_size_total)
  with assms(2) show ?thesis by (simp add: push_def Let_def)
qed

section \<open>The example run\<close>

lemma example_started_eq:
  "start None (Some chunk_ptr_type) [] (Generator ([], Some (Some [1, 2])))
     (spawned ''load'' :: (unit, chunk_ptr) exec_node_state)
   = Some (Reply_now None, example_started)"
  by (simp add: example_started_def start_def spawned_def resume_generator_def)

lemma example_started_state:
  "example_started = (spawned ''load'')\<lparr>instance_it := Some (Some (Some [1, 2]))\<rparr>"
  by (simp add: example_started_def start_def spawned_def resume_generator_def)

lemma example_pulled_state:
  "example_pulled = (spawned ''load'')
     \<lparr>instance_it := Some (Some (Some [1, 2])), run_scheduled := True,
      current_demand := Some \<lparr>rp = 1, sink = 7, batch_size = 1,
        batch_timeout = max_batch_timeout, ongoing = False\<rparr>\<rparr>"
  by (simp add: example_pulled_def example_started_state pull_def schedule_run_def spawned_def)

lemma example_advanced_eq:
  "scheduled_action None (Some chunk_ptr_type) 0 ([], None) example_pulled = Some example_advanced"
  by (simp add: example_advanced_def example_pulled_state scheduled_action_def run_def
      deliver_batches_def advance_generator_def resume_generator_def schedule_run_def spawned_def
      chunk_ptr_type_def size_chunk_ptr_def u64_add_def max_batch_timeout_def Mi_def Let_def)

lemma example_advanced_state:
  "example_advanced = (spawned ''load'')
     \<lparr>instance_it := Some None, run_scheduled := True,
      current_demand := Some \<lparr>rp = 1, sink = 7, batch_size = 1,
        batch_timeout = max_batch_timeout, ongoing = False\<rparr>,
      outbound_buffer := [Some [1, 2]], outbound_buffer_size := 2\<rparr>"
  by (simp add: example_advanced_def example_pulled_state scheduled_action_def run_def
      deliver_batches_def advance_generator_def resume_generator_def schedule_run_def spawned_def
      chunk_ptr_type_def size_chunk_ptr_def u64_add_def max_batch_timeout_def Mi_def Let_def)

lemma example_delivering_eq:
  "scheduled_action None (Some chunk_ptr_type) 1 ([], None) example_advanced = Some example_delivering"
  by (simp add: example_delivering_def example_advanced_state scheduled_action_def run_def
      deliver_batches_def schedule_run_def spawned_def perform_def
      chunk_ptr_type_def split_chunk_ptrs_def split_chunk_ptr_def chunk_slice_def
      size_chunk_ptr_def max_batch_timeout_def Let_def)

lemma example_delivering_pushed:
  "pushed_batches (outbox example_delivering) = [[Some [1]]]"
  by (simp add: example_delivering_def example_advanced_state scheduled_action_def run_def
      deliver_batches_def schedule_run_def spawned_def perform_def
      chunk_ptr_type_def split_chunk_ptrs_def split_chunk_ptr_def chunk_slice_def
      size_chunk_ptr_def max_batch_timeout_def Let_def)

lemma example_reachable:
  "reachable None (Some chunk_ptr_type) (\<lambda>input. True) ''load'' example_pulled"
  "reachable None (Some chunk_ptr_type) (\<lambda>input. True) ''load'' example_delivering"
proof -
  have r0: "reachable None (Some chunk_ptr_type) (\<lambda>input. True) ''load''
      (spawned ''load'' :: (unit, chunk_ptr) exec_node_state)"
    by (rule reachable.at_spawn)
  have r1: "reachable None (Some chunk_ptr_type) (\<lambda>input. True) ''load'' example_started"
    by (rule reachable.on_start [OF r0 _ _ example_started_eq])
      (simp_all add: running_def spawned_def sound_instantiation_def sound_resumption_def
        chunk_ptr_type_def size_chunk_ptr_def)
  show r2: "reachable None (Some chunk_ptr_type) (\<lambda>input. True) ''load'' example_pulled"
    by (rule reachable.on_pull [OF r1 _ refl, of 7 1 max_batch_timeout 0 1 "fst (pull 7 1 max_batch_timeout 0 1 example_started)"])
      (simp_all add: running_def example_started_state spawned_def example_pulled_def)
  have r3: "reachable None (Some chunk_ptr_type) (\<lambda>input. True) ''load'' example_advanced"
    by (rule reachable.on_scheduled_action [OF r2 _ _ example_advanced_eq])
      (simp_all add: running_def example_pulled_state spawned_def sound_resumption_def)
  show "reachable None (Some chunk_ptr_type) (\<lambda>input. True) ''load'' example_delivering"
    by (rule reachable.on_scheduled_action [OF r3 _ _ example_delivering_eq])
      (simp_all add: running_def example_advanced_state spawned_def sound_resumption_def)
qed

section \<open>Concurrent pulls\<close>

lemma pull_with_pending_demand:
  assumes "reachable inp (Some ot) accepts name st" and "sound_element_type ot"
    and "current_demand st = Some d"
  shows "fst (pull snk batch_sz timeout now response_promise st) = concurrent_pull_error
     \<and> current_demand (snd (pull snk batch_sz timeout now response_promise st)) = Some d"
proof -
  from reachable_outbound_invariant [OF assms(1,2)] have "demand_invariant st"
    by (simp add: outbound_invariant_def)
  with assms(3) have "\<not> reject_demand st" by (simp add: demand_invariant_def)
  with assms(3) show ?thesis by (simp add: pull_def Let_def concurrent_pull_error_def)
qed

text \<open>
  C6. In every state that a node with the output type \<open>table_slice\<close> or \<open>chunk_ptr\<close>
  reaches, whatever is pushed to it: a pull that arrives while \<open>current_demand\<close> is set
  is answered at once with the \<open>logic_error\<close> "concurrent pull", and the pending demand is
  the same afterwards.
\<close>

theorem concurrent_pull_rejected:
  "(reachable inp (Some table_slice_type) accepts name st \<and> current_demand st = Some d
      \<longrightarrow> fst (pull snk batch_sz timeout now response_promise st) = concurrent_pull_error
        \<and> current_demand (snd (pull snk batch_sz timeout now response_promise st)) = Some d)
   \<and> (reachable inp' (Some chunk_ptr_type) accepts' name' st' \<and> current_demand st' = Some d'
      \<longrightarrow> fst (pull snk batch_sz timeout now response_promise st') = concurrent_pull_error
        \<and> current_demand (snd (pull snk batch_sz timeout now response_promise st')) = Some d')"
proof (intro conjI impI)
  assume "reachable inp (Some table_slice_type) accepts name st \<and> current_demand st = Some d"
  then have r: "reachable inp (Some table_slice_type) accepts name st"
    and d: "current_demand st = Some d" by simp_all
  note p = pull_with_pending_demand [OF r sound_table_slice_type d]
  show "fst (pull snk batch_sz timeout now response_promise st) = concurrent_pull_error"
    using p by simp
  show "current_demand (snd (pull snk batch_sz timeout now response_promise st)) = Some d"
    using p by simp
next
  assume "reachable inp' (Some chunk_ptr_type) accepts' name' st' \<and> current_demand st' = Some d'"
  then have r: "reachable inp' (Some chunk_ptr_type) accepts' name' st'"
    and d: "current_demand st' = Some d'" by simp_all
  note p = pull_with_pending_demand [OF r sound_chunk_ptr_type d]
  show "fst (pull snk batch_sz timeout now response_promise st') = concurrent_pull_error"
    using p by simp
  show "current_demand (snd (pull snk batch_sz timeout now response_promise st')) = Some d'"
    using p by simp
qed

theorem concurrent_pull_rejected_witness:
  "fst (pull 8 5 max_batch_timeout 3 2 example_pulled) = concurrent_pull_error
   \<and> current_demand (snd (pull 8 5 max_batch_timeout 3 2 example_pulled))
     = Some \<lparr>rp = 1, sink = 7, batch_size = 1, batch_timeout = max_batch_timeout, ongoing = False\<rparr>"
proof -
  have d: "current_demand example_pulled
     = Some \<lparr>rp = 1, sink = 7, batch_size = 1, batch_timeout = max_batch_timeout, ongoing = False\<rparr>"
    by (simp add: example_pulled_state)
  from concurrent_pull_rejected [THEN conjunct2, rule_format, OF conjI, OF example_reachable(1) d]
  show ?thesis .
qed

section \<open>Empty elements\<close>

lemma reachable_outbound_clean:
  assumes "reachable inp (Some ot) accepts name st" and "sound_element_type ot"
  shows "outbound_clean ot st receiver"
proof -
  from reachable_outbound_invariant [OF assms] have b: "buffer_invariant ot st"
    by (simp add: outbound_invariant_def)
  then have "list_all (\<lambda>batch. no_empty_element (size_of ot) batch
                     \<and> 0 < total_size (size_of ot) batch
                     \<and> total_size (size_of ot) batch < 2 ^ 64)
          (pushed_batches (outbox st))"
    by (simp add: buffer_invariant_def)
  then have "list_all (\<lambda>batch. no_empty_element (size_of ot) batch
                     \<and> 0 < total_size (size_of ot) batch
                     \<and> fst (push ot batch receiver) \<noteq> empty_batch_error)
          (pushed_batches (outbox st))"
    by (rule list.pred_mono_strong) (auto simp: empty_batch_error_def dest: push_of_pushed_batch)
  with b show ?thesis by (simp add: outbound_clean_def buffer_invariant_def)
qed

lemma push_rejects_zero_total:
  "total_size (size_of it) input = 0 \<Longrightarrow>
     fst (push it input st) = empty_batch_error
     \<and> inbound_buffer (snd (push it input st)) = inbound_buffer st"
  using transform_reduce_size_total [of "size_of it" input]
  by (simp add: push_def Let_def empty_batch_error_def)

lemma adapter_yields_no_empty_element:
  "adapter_resume it st = Some (Element x, st') \<Longrightarrow> size_of it x > 0"
  using adapter_step_frame [OF adapter_resume_step] by blast

lemma advance_generator_discards_empty:
  assumes "advance_generator inp (Some ot) r st = Some (b, st')"
    and "instance_it st = Some (Some x)" and "size_of ot x = 0"
  shows "outbound_buffer st' = outbound_buffer st"
proof -
  from assms have "st' = st \<or> (\<exists>st1. resume_generator inp r st = Some st1
      \<and> outbound_buffer st' = outbound_buffer st1)"
    by (auto simp: advance_generator_def Let_def split: option.splits if_splits)
  then show ?thesis using resume_generator_frame by fastforce
qed

text \<open>
  C10. In every state a node reaches, no element of the inbound buffer is empty, provided
  that no vector pushed to the node has an empty element (as it is for a predecessor that is
  a node, by the second and third part); no element of the outbound buffer is empty; and every
  vector the node has pushed has no empty element and a total size different from zero, so the
  push handler of a receiving node does not answer it with "received empty batch". Also:
  \<open>push\<close> rejects elements of total size zero and leaves the inbound buffer as it is; an
  element the input adapter takes from the buffer is not empty; \<open>advance_generator\<close> does
  not buffer an empty element.
\<close>

theorem buffers_hold_no_empty_element:
  "(reachable (Some it) outp accepts name st
      \<and> (\<forall>input. accepts input \<longrightarrow> no_empty_element (size_of it) input)
      \<longrightarrow> no_empty_element (size_of it) (inbound_buffer st))
   \<and> (reachable inp1 (Some table_slice_type) accepts1 name1 st1
      \<longrightarrow> outbound_clean table_slice_type st1 receiver1)
   \<and> (reachable inp2 (Some chunk_ptr_type) accepts2 name2 st2
      \<longrightarrow> outbound_clean chunk_ptr_type st2 receiver2)
   \<and> (total_size (size_of it) input = 0
      \<longrightarrow> fst (push it input st3) = empty_batch_error
        \<and> inbound_buffer (snd (push it input st3)) = inbound_buffer st3)
   \<and> (adapter_resume it st4 = Some (Element x, st4') \<longrightarrow> size_of it x > 0)
   \<and> (advance_generator inp5 (Some ot) r st5 = Some (b, st5')
        \<and> instance_it st5 = Some (Some y) \<and> size_of ot y = 0
      \<longrightarrow> outbound_buffer st5' = outbound_buffer st5)"
proof (intro conjI impI)
  assume "reachable (Some it) outp accepts name st
      \<and> (\<forall>input. accepts input \<longrightarrow> no_empty_element (size_of it) input)"
  then show "no_empty_element (size_of it) (inbound_buffer st)"
    using reachable_inbound [of it outp accepts name st] by simp
next
  assume "reachable inp1 (Some table_slice_type) accepts1 name1 st1"
  then show "outbound_clean table_slice_type st1 receiver1"
    by (rule reachable_outbound_clean [OF _ sound_table_slice_type])
next
  assume "reachable inp2 (Some chunk_ptr_type) accepts2 name2 st2"
  then show "outbound_clean chunk_ptr_type st2 receiver2"
    by (rule reachable_outbound_clean [OF _ sound_chunk_ptr_type])
next
  assume z: "total_size (size_of it) input = 0"
  show "fst (push it input st3) = empty_batch_error"
    using push_rejects_zero_total [OF z, of st3] by simp
  show "inbound_buffer (snd (push it input st3)) = inbound_buffer st3"
    using push_rejects_zero_total [OF z, of st3] by simp
next
  assume "adapter_resume it st4 = Some (Element x, st4')"
  then show "size_of it x > 0" by (rule adapter_yields_no_empty_element)
next
  assume "advance_generator inp5 (Some ot) r st5 = Some (b, st5')
        \<and> instance_it st5 = Some (Some y) \<and> size_of ot y = 0"
  then show "outbound_buffer st5' = outbound_buffer st5"
    using advance_generator_discards_empty [of inp5 ot r st5 b st5' y] by simp
qed

theorem buffers_hold_no_empty_element_witness:
  "outbound_clean chunk_ptr_type example_delivering (spawned ''save'' :: (chunk_ptr, unit) exec_node_state)
   \<and> outbound_buffer example_delivering = [Some [1, 2]]
   \<and> pushed_batches (outbox example_delivering) = [[Some [1]]]
   \<and> fst (push chunk_ptr_type [None] (spawned ''save'' :: (chunk_ptr, unit) exec_node_state))
       = empty_batch_error"
proof -
  have t: "total_size (size_of chunk_ptr_type) [None] = 0"
    by (simp add: chunk_ptr_type_def size_chunk_ptr_def)
  have o: "outbound_buffer example_delivering = [Some [1, 2]]"
    by (simp add: example_delivering_def example_advanced_state scheduled_action_def run_def
      deliver_batches_def schedule_run_def spawned_def perform_def
      chunk_ptr_type_def split_chunk_ptrs_def split_chunk_ptr_def chunk_slice_def
      size_chunk_ptr_def max_batch_timeout_def Let_def)
  note inst = buffers_hold_no_empty_element
    [where ?st2.0 = example_delivering
       and ?receiver2.0 = "spawned ''save'' :: (chunk_ptr, unit) exec_node_state"
       and ?inp2.0 = None and ?accepts2.0 = "\<lambda>input. True" and ?name2.0 = "''load''"
       and it = chunk_ptr_type and input = "[None]"
       and ?st3.0 = "spawned ''save'' :: (chunk_ptr, unit) exec_node_state"]
  note c = inst [THEN conjunct2, THEN conjunct2, THEN conjunct1]
  note e = inst [THEN conjunct2, THEN conjunct2, THEN conjunct2, THEN conjunct1]
  from c e example_reachable(2) t o example_delivering_pushed show ?thesis by simp
qed

end
